theory Spec2Isabelle
  imports Main
begin

section \<open>The tag state of the template parser (src/parse/state/tag.js)\<close>

text \<open>
  The parser object of the source is mutable and shared: the open-element stack holds
  references to nodes that also sit in their parent's \<open>children\<close> array.  The embedding
  makes the aliasing explicit with an arena: every node lives in the list \<open>nodes\<close>, a
  reference is an index into it, \<open>children\<close> and \<open>stack\<close> are lists of indices.
  A fresh node gets the index \<open>length nodes\<close>.  The stack is kept with its top at the
  head of the list (the source pushes and pops at the end of an array).

  Source text is a \<open>string\<close>; offsets count its characters.  A raised exception is a value
  of type \<open>error\<close> on the left of a sum.
\<close>

subsection \<open>Data model\<close>

datatype error =
    SyntaxError string nat
  | TypeError

datatype expression =
    Identifier nat nat string
  | OtherExpression nat nat string

datatype chunk =
    TextChunk nat nat string
  | MustacheTag nat nat expression
  | AttributeShorthand nat nat expression

datatype attr_value = VTrue | Chunks "chunk list"

datatype attribute =
    Attribute nat nat string attr_value
  | Ref nat nat string
  | EventHandler nat nat string expression
  | Binding nat nat string string

datatype ntype = Fragment | Element | Comment | Text | MustacheNode | IfBlock | EachBlock | ElseBlock

record node =
  ntype :: ntype
  nstart :: nat
  nend :: "nat option"
  nname :: "string option"
  attributes :: "attribute list"
  children :: "nat list"
  data :: string

record content =
  c_start :: nat
  c_end :: nat
  c_attributes :: "attribute list"
  c_source :: string

record parser =
  template :: string
  index :: nat
  stack :: "nat list"
  nodes :: "node list"
  metaTagsSeen :: "string list"
  js :: "content option"
  css :: "content option"

text \<open>
  The collaborators that tag.js imports and that are not part of it.  Each reader gets the
  parser state and answers with its result and the number of characters it consumed: by
  its contract it only advances the cursor.
\<close>

record env =
  readExpression :: "parser \<Rightarrow> error + (expression \<times> nat)"
  readScript :: "parser \<Rightarrow> nat \<Rightarrow> attribute list \<Rightarrow> error + (content \<times> nat)"
  readStyle :: "parser \<Rightarrow> nat \<Rightarrow> attribute list \<Rightarrow> error + (content \<times> nat)"
  readEventHandlerDirective :: "parser \<Rightarrow> nat \<Rightarrow> string \<Rightarrow> error + (attribute \<times> nat)"
  readBindingDirective :: "parser \<Rightarrow> nat \<Rightarrow> string \<Rightarrow> error + (attribute \<times> nat)"
  decodeCharacterReferences :: "string \<Rightarrow> string"
  isVoidElementName :: "string \<Rightarrow> bool"

subsection \<open>Character classes of the regular expressions\<close>

text \<open>
  The class \<open>\s\<close>, on the characters a \<open>string\<close> of bytes can hold: the blank, tab,
  line feed, vertical tab, form feed, carriage return and the no-break space U+00A0.
  The other members of the class lie beyond U+00FF.
\<close>

definition whitespace :: "char \<Rightarrow> bool" where
  "whitespace c =
     (c \<in> set [CHR '' '', CHR 0x09, CHR 0x0A, CHR 0x0B, CHR 0x0C, CHR 0x0D, CHR 0xA0])"

definition letter :: "char \<Rightarrow> bool" where
  "letter c = (c \<in> set ''abcdefghijklmnopqrstuvwxyzABCDEFGHIJKLMNOPQRSTUVWXYZ'')"

definition digit :: "char \<Rightarrow> bool" where
  "digit c = (c \<in> set ''0123456789'')"

text \<open>The class \<open>\w\<close>.\<close>

definition wordChar :: "char \<Rightarrow> bool" where
  "wordChar c = (letter c \<or> digit c \<or> c = CHR ''_'')"

text \<open>\<open>/(\s|\/|>)/\<close>, the pattern that ends a tag name.\<close>

definition tagNameEnd :: "char \<Rightarrow> bool" where
  "tagNameEnd c = (whitespace c \<or> c = CHR ''/'' \<or> c = CHR ''>'')"

text \<open>\<open>/(\s|=|\/|>)/\<close>, the pattern that ends an attribute name.\<close>

definition attributeNameEnd :: "char \<Rightarrow> bool" where
  "attributeNameEnd c = (whitespace c \<or> c = CHR ''='' \<or> c = CHR ''/'' \<or> c = CHR ''>'')"

text \<open>\<open>invalidUnquotedAttributeCharacters = /[\s"'=<>\/`]/\<close> (line 10).\<close>

definition invalidUnquotedAttributeCharacters :: "char \<Rightarrow> bool" where
  "invalidUnquotedAttributeCharacters c =
     (whitespace c \<or> c \<in> set [CHR 0x22, CHR 0x27, CHR ''='', CHR ''<'', CHR ''>'', CHR ''/'', CHR 0x60])"

subsection \<open>Cursor primitives\<close>

text \<open>
  Modelled from the spec: the parser object's methods \<open>match\<close>, \<open>eat\<close>,
  \<open>allowWhitespace\<close>, \<open>readUntil\<close>, \<open>current\<close> and \<open>error\<close> (the generic cursor
  primitives: peek, consume-literal, skip-whitespace, consume-until-regex, top of the
  open-element stack, raise with a source offset) are defined outside tag.js.
  \<open>error\<close> without an offset raises at the current index.
\<close>

definition remaining :: "parser \<Rightarrow> string" where
  "remaining p = drop (index p) (template p)"

definition match :: "string \<Rightarrow> parser \<Rightarrow> bool" where
  "match s p = (take (length s) (remaining p) = s)"

definition eat :: "string \<Rightarrow> parser \<Rightarrow> bool \<times> parser" where
  "eat s p = (if match s p then (True, p\<lparr>index := index p + length s\<rparr>) else (False, p))"

definition eatRequired :: "string \<Rightarrow> parser \<Rightarrow> error + parser" where
  "eatRequired s p =
     (if match s p then Inr (p\<lparr>index := index p + length s\<rparr>)
      else Inl (SyntaxError (''Expected '' @ s) (index p)))"

definition allowWhitespace :: "parser \<Rightarrow> parser" where
  "allowWhitespace p = p\<lparr>index := index p + length (takeWhile whitespace (remaining p))\<rparr>"

text \<open>
  \<open>readUntil\<close> for a pattern that is one character class: the text before the first
  character of the class, or the rest of the input when there is none.  At the end of
  the input it raises.
\<close>

definition readUntil :: "(char \<Rightarrow> bool) \<Rightarrow> parser \<Rightarrow> error + (string \<times> parser)" where
  "readUntil stop p =
     (if length (template p) \<le> index p then Inl (SyntaxError ''Unexpected end of input'' (index p))
      else let s = takeWhile (\<lambda>c. \<not> stop c) (remaining p)
           in Inr (s, p\<lparr>index := index p + length s\<rparr>))"

text \<open>The text before the first occurrence of a literal (for \<open>/-->/\<close>).\<close>

fun before :: "string \<Rightarrow> string \<Rightarrow> string" where
  "before lit [] = []"
| "before lit (c # cs) = (if take (length lit) (c # cs) = lit then [] else c # before lit cs)"

definition readUntilLiteral :: "string \<Rightarrow> parser \<Rightarrow> error + (string \<times> parser)" where
  "readUntilLiteral lit p =
     (if length (template p) \<le> index p then Inl (SyntaxError ''Unexpected end of input'' (index p))
      else let s = before lit (remaining p)
           in Inr (s, p\<lparr>index := index p + length s\<rparr>))"

definition current :: "parser \<Rightarrow> nat option" where
  "current p = (case stack p of [] \<Rightarrow> None | i # below \<Rightarrow> Some i)"

text \<open>
  Modelled from the spec: \<open>trimStart\<close> and \<open>trimEnd\<close> of utils/trim.js, which strip
  leading and trailing whitespace from a string.
\<close>

definition trimStart :: "string \<Rightarrow> string" where
  "trimStart s = dropWhile whitespace s"

definition trimEnd :: "string \<Rightarrow> string" where
  "trimEnd s = rev (dropWhile whitespace (rev s))"

subsection \<open>Static tables (lines 9 to 45)\<close>

definition SELF :: string where
  "SELF = '':Self''"

text \<open>
  \<open>metaTags\<close> is an object literal and the source tests \<open>name in metaTags\<close>: the operator
  \<open>in\<close> also finds the properties every object inherits from \<open>Object.prototype\<close>.
\<close>

definition objectPrototypeKeys :: "string list" where
  "objectPrototypeKeys =
     [''constructor'', ''hasOwnProperty'', ''isPrototypeOf'', ''propertyIsEnumerable'',
      ''toLocaleString'', ''toString'', ''valueOf'', ''__proto__'', ''__defineGetter__'',
      ''__defineSetter__'', ''__lookupGetter__'', ''__lookupSetter__'']"

definition jsIn :: "string \<Rightarrow> string list \<Rightarrow> bool" where
  "jsIn key own = (key \<in> set own \<or> key \<in> set objectPrototypeKeys)"

definition metaTags :: "string list" where
  "metaTags = ['':Window'']"

datatype special = Script | Style

definition specials :: "(string \<times> special) list" where
  "specials = [(''script'', Script), (''style'', Style)]"

definition disallowedContents :: "(string \<times> string list) list" where
  "disallowedContents =
     [(''li'', [''li'']),
      (''dt'', [''dt'', ''dd'']),
      (''dd'', [''dt'', ''dd'']),
      (''p'', [''address'', ''article'', ''aside'', ''blockquote'', ''div'', ''dl'', ''fieldset'',
               ''footer'', ''form'', ''h1'', ''h2'', ''h3'', ''h4'', ''h5'', ''h6'', ''header'',
               ''hgroup'', ''hr'', ''main'', ''menu'', ''nav'', ''ol'', ''p'', ''pre'', ''section'',
               ''table'', ''ul'']),
      (''rt'', [''rt'', ''rp'']),
      (''rp'', [''rt'', ''rp'']),
      (''optgroup'', [''optgroup'']),
      (''option'', [''option'', ''optgroup'']),
      (''thead'', [''tbody'', ''tfoot'']),
      (''tbody'', [''tbody'', ''tfoot'']),
      (''tfoot'', [''tbody'']),
      (''tr'', [''tr'', ''tbody'']),
      (''td'', [''td'', ''th'', ''tr'']),
      (''th'', [''td'', ''th'', ''tr''])]"

text \<open>
  \<open>validTagName = /^\!?[a-zA-Z]{1,}:?[a-zA-Z0-9\-]*/\<close> (line 9).  \<open>validTagNameRest\<close> runs
  the pattern from the start of the string and answers with what is left behind the
  longest match, or \<open>None\<close> when the pattern does not match.  The pattern has no \<open>$\<close>, so
  \<open>validTagName.test\<close> only asks whether there is a match.
\<close>

definition validTagNameRest :: "string \<Rightarrow> string option" where
  "validTagNameRest s =
     (let s1 = (case s of [] \<Rightarrow> [] | c # cs \<Rightarrow> if c = CHR ''!'' then cs else c # cs);
          s2 = dropWhile letter s1
      in if takeWhile letter s1 = [] then None
         else let s3 = (case s2 of [] \<Rightarrow> [] | c # cs \<Rightarrow> if c = CHR '':'' then cs else c # cs)
              in Some (dropWhile (\<lambda>c. letter c \<or> digit c \<or> c = CHR ''-'') s3))"

definition validTagName :: "string \<Rightarrow> bool" where
  "validTagName s = (validTagNameRest s \<noteq> None)"

text \<open>
  The tag-name grammar as the specification words it: the whole name is an optional
  \<open>!\<close>, letters, an optional colon, then letters, digits and hyphens.
\<close>

definition matchesTagNameGrammar :: "string \<Rightarrow> bool" where
  "matchesTagNameGrammar s = (validTagNameRest s = Some [])"

text \<open>\<open>/^:\w+$/\<close> (line 259).\<close>

definition isShorthand :: "string \<Rightarrow> bool" where
  "isShorthand s = (case s of [] \<Rightarrow> False | c # w \<Rightarrow> c = CHR '':'' \<and> w \<noteq> [] \<and> list_all wordChar w)"

subsection \<open>Facts about the cursor primitives\<close>

lemma allowWhitespace_template: "template (allowWhitespace p) = template p"
  by (simp add: allowWhitespace_def)

lemma allowWhitespace_index: "index p \<le> index (allowWhitespace p)"
  by (simp add: allowWhitespace_def)

text \<open>A state that differs from another one in the cursor only.\<close>

lemma only_index:
  assumes "q = p\<lparr>index := i\<rparr>"
  shows "template q = template p" and "stack q = stack p" and "nodes q = nodes p"
    and "metaTagsSeen q = metaTagsSeen p" and "js q = js p" and "css q = css p"
  using assms by simp_all

lemma only_metaTagsSeen:
  assumes "q = p\<lparr>metaTagsSeen := m\<rparr>"
  shows "template q = template p" and "index q = index p" and "stack q = stack p"
    and "nodes q = nodes p" and "js q = js p" and "css q = css p"
  using assms by simp_all

subsection \<open>stripWhitespace (lines 47 to 62)\<close>

text \<open>
  \<open>element\<close> is the index of the element in the arena.  \<open>firstChild\<close> and \<open>lastChild\<close>
  are read before anything is changed; with one child they are the same node, and the
  second \<open>if\<close> sees what the first one wrote.  \<open>shift\<close> and \<open>pop\<close> on an empty array do
  nothing.
\<close>

definition stripWhitespace :: "nat \<Rightarrow> node list \<Rightarrow> node list" where
  "stripWhitespace element ns =
     (if children (ns ! element) = [] then ns
      else
        let firstChild = hd (children (ns ! element));
            lastChild = last (children (ns ! element));
            ns1 =
              (if ntype (ns ! firstChild) = Text then
                 let ns' = ns[firstChild := (ns ! firstChild)\<lparr>data := trimStart (data (ns ! firstChild))\<rparr>]
                 in if data (ns' ! firstChild) = []
                    then ns'[element := (ns' ! element)\<lparr>children := tl (children (ns' ! element))\<rparr>]
                    else ns'
               else ns)
        in
          if ntype (ns1 ! lastChild) = Text then
            let ns' = ns1[lastChild := (ns1 ! lastChild)\<lparr>data := trimEnd (data (ns1 ! lastChild))\<rparr>]
            in if data (ns' ! lastChild) = []
               then ns'[element := (ns' ! element)\<lparr>children := butlast (children (ns' ! element))\<rparr>]
               else ns'
          else ns1)"

subsection \<open>readTagName (lines 190 to 223)\<close>

definition readTagName :: "parser \<Rightarrow> error + (string \<times> parser)" where
  "readTagName p =
     (let start = index p in
      case eat SELF p of
        (True, p1) \<Rightarrow>
          if list_ex (\<lambda>i. ntype (nodes p1 ! i) = IfBlock \<or> ntype (nodes p1 ! i) = EachBlock) (stack p1)
          then Inr (SELF, p1)
          else Inl (SyntaxError (''<'' @ SELF @ ''> components can only exist inside if-blocks or each-blocks'') start)
      | (False, p1) \<Rightarrow>
          (case readUntil tagNameEnd p1 of
             Inl e \<Rightarrow> Inl e
           | Inr (name, p2) \<Rightarrow>
               if jsIn name metaTags then Inr (name, p2)
               else if \<not> validTagName name then Inl (SyntaxError ''Expected valid tag name'' start)
               else Inr (name, p2)))"

subsection \<open>getShorthandValue (lines 345 to 359)\<close>

definition getShorthandValue :: "nat \<Rightarrow> string \<Rightarrow> chunk list" where
  "getShorthandValue start name =
     (let endOffset = start + length name
      in [AttributeShorthand start endOffset (Identifier start endOffset name)])"

subsection \<open>readAttributeValue (lines 275 to 343)\<close>

definition isDone :: "char option \<Rightarrow> char \<Rightarrow> bool" where
  "isDone quoteMark c =
     (case quoteMark of Some q \<Rightarrow> c = q | None \<Rightarrow> invalidUnquotedAttributeCharacters c)"

fun decodeChunk :: "env \<Rightarrow> chunk \<Rightarrow> chunk" where
  "decodeChunk env (TextChunk s e d) = TextChunk s e (decodeCharacterReferences env d)"
| "decodeChunk env c = c"

text \<open>
  The \<open>while\<close> loop of lines 294 to 340.  \<open>currentChunk\<close> is kept as its start and its
  data; its end is known when it is pushed.  Every round moves the cursor forward, so
  the loop ends: the measure is the length of the input that is left.
\<close>

function readAttributeValueLoop ::
  "env \<Rightarrow> char option \<Rightarrow> parser \<Rightarrow> nat \<Rightarrow> string \<Rightarrow> chunk list \<Rightarrow> error + (chunk list \<times> parser)" where
  "readAttributeValueLoop env quoteMark p chunkStart chunkData chunks =
     (if index p < length (template p) then
        (case eat ''{{'' p of
           (True, p1) \<Rightarrow>
             (let chunks1 = (if chunkData \<noteq> [] then chunks @ [TextChunk chunkStart (index p) chunkData]
                             else chunks)
              in case readExpression env p1 of
                   Inl e \<Rightarrow> Inl e
                 | Inr (expression, consumed) \<Rightarrow>
                     (let p2 = allowWhitespace (p1\<lparr>index := index p1 + consumed\<rparr>)
                      in case eat ''}}'' p2 of
                           (False, p3) \<Rightarrow> Inl (SyntaxError ''Expected }}'' (index p3))
                         | (True, p3) \<Rightarrow>
                             readAttributeValueLoop env quoteMark p3 (index p3) []
                               (chunks1 @ [MustacheTag (index p) (index p3) expression])))
         | (False, p1) \<Rightarrow>
             if isDone quoteMark (template p1 ! index p1) then
               (let chunks1 = (if chunkData \<noteq> [] then chunks @ [TextChunk chunkStart (index p1) chunkData]
                               else chunks);
                    p2 = (if quoteMark \<noteq> None then p1\<lparr>index := index p1 + 1\<rparr> else p1)
                in Inr (map (decodeChunk env) chunks1, p2))
             else
               readAttributeValueLoop env quoteMark (p1\<lparr>index := index p1 + 1\<rparr>) chunkStart
                 (chunkData @ [template p1 ! index p1]) chunks)
      else Inl (SyntaxError ''Unexpected end of input'' (index p)))"
  by pat_completeness auto
termination
  apply (relation "measure (\<lambda>(env, quoteMark, p, chunkStart, chunkData, chunks). length (template p) - index p)")
    apply simp
   apply (auto simp: eat_def allowWhitespace_def split: if_splits)
  done

declare readAttributeValueLoop.simps [simp del]

text \<open>
  Both quote marks are tried, one after the other (lines 278 and 279): when a double
  quote follows a single one, both are eaten and the double quote is the mark.
\<close>

definition readAttributeValue :: "env \<Rightarrow> parser \<Rightarrow> error + (chunk list \<times> parser)" where
  "readAttributeValue env p =
     (case eat [CHR 0x27] p of (single, p1) \<Rightarrow>
        (case eat [CHR 0x22] p1 of (double, p2) \<Rightarrow>
           (let quoteMark = (if double then Some (CHR 0x22) else if single then Some (CHR 0x27) else None)
            in readAttributeValueLoop env quoteMark p2 (index p2) [] [])))"

lemma readAttributeValueLoop_frame:
  "readAttributeValueLoop env quoteMark p chunkStart chunkData chunks = Inr (r, q)
   \<Longrightarrow> q = p\<lparr>index := index q\<rparr> \<and> index p \<le> index q"
proof (induction env quoteMark p chunkStart chunkData chunks rule: readAttributeValueLoop.induct)
  case (1 env quoteMark p chunkStart chunkData chunks)
  show ?case
  proof (cases "match ''{{'' p")
    case True
    define p1 where "p1 = p\<lparr>index := index p + 2\<rparr>"
    from True have e: "eat ''{{'' p = (True, p1)"
      by (simp add: eat_def p1_def)
    from "1.prems" e obtain expression consumed p3 where
      rd: "readExpression env p1 = Inr (expression, consumed)"
      and e2: "eat ''}}'' (allowWhitespace (p1\<lparr>index := index p1 + consumed\<rparr>)) = (True, p3)"
      and rec: "readAttributeValueLoop env quoteMark p3 (index p3) []
                  ((if chunkData \<noteq> [] then chunks @ [TextChunk chunkStart (index p) chunkData] else chunks)
                   @ [MustacheTag (index p) (index p3) expression]) = Inr (r, q)"
      and lt: "index p < length (template p)"
      by (subst (asm) readAttributeValueLoop.simps)
         (auto simp: Let_def split: if_splits sum.splits prod.splits bool.splits)
    from e2 have p3: "p3 = p\<lparr>index := index p3\<rparr>" "index p \<le> index p3"
      by (auto simp: eat_def allowWhitespace_def p1_def split: if_splits)
    have "q = p3\<lparr>index := index q\<rparr> \<and> index p3 \<le> index q"
      by (rule "1.IH"(1)[OF lt e[symmetric] refl refl rd refl refl e2[symmetric] refl rec])
    then have "q = p3\<lparr>index := index q\<rparr>" and "index p3 \<le> index q"
      by simp_all
    with p3 show ?thesis
      by (cases p3) auto
  next
    case False
    then have e: "eat ''{{'' p = (False, p)"
      by (simp add: eat_def)
    show ?thesis
    proof (cases "isDone quoteMark (template p ! index p)")
      case True
      with "1.prems" e show ?thesis
        by (subst (asm) readAttributeValueLoop.simps)
           (auto simp: Let_def split: if_splits)
    next
      case nd: False
      from "1.prems" e nd have lt: "index p < length (template p)"
        and rec: "readAttributeValueLoop env quoteMark (p\<lparr>index := index p + 1\<rparr>) chunkStart
                    (chunkData @ [template p ! index p]) chunks = Inr (r, q)"
        by (subst (asm) readAttributeValueLoop.simps, auto simp: Let_def split: if_splits)+
      from "1.IH"(2)[OF lt e[symmetric] refl nd rec] show ?thesis
        by simp
    qed
  qed
qed

lemma readAttributeValue_frame:
  "readAttributeValue env p = Inr (r, q) \<Longrightarrow> q = p\<lparr>index := index q\<rparr> \<and> index p \<le> index q"
  unfolding readAttributeValue_def
  by (auto simp: eat_def Let_def split: if_splits prod.splits dest!: readAttributeValueLoop_frame)

subsection \<open>readAttribute (lines 225 to 273)\<close>

text \<open>
  \<open>uniqueNames\<close> is the set the caller owns; the function adds to it, so the new set is
  part of the result.  \<open>None\<close> is the source's \<open>null\<close>: no attribute is left.
\<close>

definition readAttribute ::
  "env \<Rightarrow> parser \<Rightarrow> string list \<Rightarrow> error + (attribute option \<times> string list \<times> parser)" where
  "readAttribute env p uniqueNames =
     (let start = index p in
      case readUntil attributeNameEnd p of
        Inl e \<Rightarrow> Inl e
      | Inr (name, p1) \<Rightarrow>
          if name = [] then Inr (None, uniqueNames, p1)
          else if name \<in> set uniqueNames then Inl (SyntaxError ''Attributes need to be unique'' start)
          else
            (let uniqueNames1 = uniqueNames @ [name];
                 p2 = allowWhitespace p1
             in
               if take 3 name = ''on:'' then
                 (case eatRequired ''='' p2 of
                    Inl e \<Rightarrow> Inl e
                  | Inr p3 \<Rightarrow>
                      (case readEventHandlerDirective env p3 start (drop 3 name) of
                         Inl e \<Rightarrow> Inl e
                       | Inr (directive, consumed) \<Rightarrow>
                           Inr (Some directive, uniqueNames1, p3\<lparr>index := index p3 + consumed\<rparr>)))
               else if take 5 name = ''bind:'' then
                 (case readBindingDirective env p2 start (drop 5 name) of
                    Inl e \<Rightarrow> Inl e
                  | Inr (directive, consumed) \<Rightarrow>
                      Inr (Some directive, uniqueNames1, p2\<lparr>index := index p2 + consumed\<rparr>))
               else if take 4 name = ''ref:'' then
                 Inr (Some (Ref start (index p2) (drop 4 name)), uniqueNames1, p2)
               else if isShorthand name then
                 Inr (Some (Attribute start (index p2) (drop 1 name)
                              (Chunks (getShorthandValue (start + 1) (drop 1 name)))),
                      uniqueNames1, p2)
               else
                 (case eat ''='' p2 of
                    (True, p3) \<Rightarrow>
                      (case readAttributeValue env p3 of
                         Inl e \<Rightarrow> Inl e
                       | Inr (chunks, p4) \<Rightarrow>
                           Inr (Some (Attribute start (index p4) name (Chunks chunks)), uniqueNames1, p4))
                  | (False, p3) \<Rightarrow>
                      Inr (Some (Attribute start (index p3) name VTrue), uniqueNames1, p3))))"

lemma readAttribute_frame:
  assumes "readAttribute env p uniqueNames = Inr (r, u, q)"
  shows "q = p\<lparr>index := index q\<rparr>" and "index p \<le> index q"
    and "r \<noteq> None \<Longrightarrow> index p < index q \<and> index p < length (template p)"
  using assms unfolding readAttribute_def readUntil_def
  by (auto simp: Let_def eat_def eatRequired_def allowWhitespace_def
      split: if_splits sum.splits prod.splits bool.splits dest!: readAttributeValue_frame)

subsection \<open>The tag state (lines 64 to 188)\<close>

text \<open>
  The attribute loop of lines 140 to 147.  A round that reads an attribute has moved the
  cursor by the length of its name at least, so the loop ends.
\<close>

function readAttributes ::
  "env \<Rightarrow> parser \<Rightarrow> attribute list \<Rightarrow> string list \<Rightarrow> error + (attribute list \<times> string list \<times> parser)" where
  "readAttributes env p attrs uniqueNames =
     (case readAttribute env p uniqueNames of
        Inl e \<Rightarrow> Inl e
      | Inr (None, uniqueNames1, p1) \<Rightarrow> Inr (attrs, uniqueNames1, p1)
      | Inr (Some attribute, uniqueNames1, p1) \<Rightarrow>
          readAttributes env (allowWhitespace p1) (attrs @ [attribute]) uniqueNames1)"
  by pat_completeness auto
termination
proof (relation "measure (\<lambda>(env, p, attrs, uniqueNames). length (template p) - index p)")
  show "wf (measure (\<lambda>(env, p, attrs, uniqueNames). length (template p) - index p))"
    by simp
next
  fix env p attrs uniqueNames and x :: "attribute option \<times> string list \<times> parser"
    and r and y :: "string list \<times> parser" and u p1 attribute
  assume a: "readAttribute env p uniqueNames = Inr x" "(r, y) = x" "(u, p1) = y" "r = Some attribute"
  then have "readAttribute env p uniqueNames = Inr (r, u, p1)" "r \<noteq> None"
    by auto
  from readAttribute_frame(3)[OF this] only_index(1)[OF readAttribute_frame(1)[OF this(1)]]
  have "template p1 = template p" "index p < index p1" "index p < length (template p)"
    by simp_all
  then show "((env, allowWhitespace p1, attrs @ [attribute], u), env, p, attrs, uniqueNames)
        \<in> measure (\<lambda>(env, p, attrs, uniqueNames). length (template p) - index p)"
    using allowWhitespace_index[of p1] by (simp add: allowWhitespace_template)
qed

declare readAttributes.simps [simp del]

text \<open>\<open>parser.current().children.push( node )\<close>: the node is new in the arena.\<close>

definition pushChild :: "nat \<Rightarrow> node \<Rightarrow> parser \<Rightarrow> parser" where
  "pushChild cur n p =
     p\<lparr>nodes := (nodes p @ [n])[cur := (nodes p ! cur)\<lparr>children := children (nodes p ! cur) @ [length (nodes p)]\<rparr>]\<rparr>"

text \<open>Lines 69 to 81: a comment.\<close>

definition commentTag :: "nat \<Rightarrow> parser \<Rightarrow> error + parser" where
  "commentTag start p =
     (case readUntilLiteral ''-->'' p of
        Inl e \<Rightarrow> Inl e
      | Inr (d, p1) \<Rightarrow>
          (case eat ''-->'' p1 of (eaten, p2) \<Rightarrow>
             (case current p2 of
                None \<Rightarrow> Inl TypeError
              | Some cur \<Rightarrow>
                  Inr (pushChild cur
                         \<lparr>ntype = Comment, nstart = start, nend = Some (index p2), nname = None,
                          attributes = [], children = [], data = d\<rparr> p2))))"

text \<open>Lines 87 to 101: the singleton meta-tags.\<close>

definition metaTagCheck :: "string \<Rightarrow> bool \<Rightarrow> nat \<Rightarrow> parser \<Rightarrow> error + parser" where
  "metaTagCheck name isClosingTag start p =
     (if jsIn name metaTags then
        if jsIn name (metaTagsSeen p) then
          (if isClosingTag then
             (case current p of
                None \<Rightarrow> Inl TypeError
              | Some cur \<Rightarrow>
                  if children (nodes p ! cur) \<noteq> []
                  then Inl (SyntaxError (''<'' @ name @ ''> cannot have children'')
                              (nstart (nodes p ! hd (children (nodes p ! cur)))))
                  else Inl (SyntaxError (''A component can only have one <'' @ name @ ''> tag'') start))
           else Inl (SyntaxError (''A component can only have one <'' @ name @ ''> tag'') start))
        else
          (let p1 = p\<lparr>metaTagsSeen := name # metaTagsSeen p\<rparr>
           in if 1 < length (stack p1)
              then Inl (SyntaxError (''<'' @ name @ ''> tags cannot be inside elements or blocks'') start)
              else Inr p1)
      else Inr p)"

text \<open>
  The \<open>while\<close> loop of lines 113 to 120, on the stack and the arena.  It answers with the
  node that carries the name, the stack below it and the arena.  On an empty stack
  \<open>parent\<close> is \<open>undefined\<close> and reading its name throws.
\<close>

fun autoClose :: "string \<Rightarrow> nat \<Rightarrow> nat list \<Rightarrow> node list \<Rightarrow> error + (nat \<times> nat list \<times> node list)" where
  "autoClose name start [] ns = Inl TypeError"
| "autoClose name start (parent # below) ns =
     (if nname (ns ! parent) \<noteq> Some name then
        if ntype (ns ! parent) \<noteq> Element
        then Inl (SyntaxError (''</'' @ name @ ''> attempted to close an element that was not open'') start)
        else autoClose name start below (ns[parent := (ns ! parent)\<lparr>nend := Some start\<rparr>])
      else Inr (parent, below, ns))"

text \<open>Lines 105 to 128: a closing tag.\<close>

definition closeTag :: "env \<Rightarrow> string \<Rightarrow> nat \<Rightarrow> parser \<Rightarrow> error + parser" where
  "closeTag env name start p =
     (if isVoidElementName env name
      then Inl (SyntaxError (''<'' @ name @ ''> is a void element and cannot have children, or a closing tag'') start)
      else
        (case eat ''>'' p of
           (False, p1) \<Rightarrow> Inl (SyntaxError (''Expected '' @ [CHR 0x27] @ ''>'' @ [CHR 0x27]) (index p1))
         | (True, p1) \<Rightarrow>
             (case autoClose name start (stack p1) (nodes p1) of
                Inl e \<Rightarrow> Inl e
              | Inr (parent, below, ns) \<Rightarrow>
                  (let ns1 = stripWhitespace parent ns
                   in Inr (p1\<lparr>stack := below,
                              nodes := ns1[parent := (ns1 ! parent)\<lparr>nend := Some (index p1)\<rparr>]\<rparr>)))))"

text \<open>Lines 129 to 138: an opening tag that closes its parent.\<close>

definition impliedClose :: "string \<Rightarrow> nat \<Rightarrow> nat \<Rightarrow> parser \<Rightarrow> parser" where
  "impliedClose name start parent p =
     (case nname (nodes p ! parent) of
        None \<Rightarrow> p
      | Some parentName \<Rightarrow>
          (case map_of disallowedContents parentName of
             None \<Rightarrow> p
           | Some names \<Rightarrow>
               if name \<in> set names then
                 (let ns1 = stripWhitespace parent (nodes p)
                  in p\<lparr>stack := tl (stack p),
                       nodes := ns1[parent := (ns1 ! parent)\<lparr>nend := Some start\<rparr>]\<rparr>)
               else p))"

definition slot :: "special \<Rightarrow> parser \<Rightarrow> content option" where
  "slot sp p = (case sp of Script \<Rightarrow> js p | Style \<Rightarrow> css p)"

definition setSlot :: "special \<Rightarrow> content \<Rightarrow> parser \<Rightarrow> parser" where
  "setSlot sp c p = (case sp of Script \<Rightarrow> p\<lparr>js := Some c\<rparr> | Style \<Rightarrow> p\<lparr>css := Some c\<rparr>)"

definition readSpecial :: "special \<Rightarrow> env \<Rightarrow> parser \<Rightarrow> nat \<Rightarrow> attribute list \<Rightarrow> error + (content \<times> nat)" where
  "readSpecial sp env = (case sp of Script \<Rightarrow> readScript env | Style \<Rightarrow> readStyle env)"

text \<open>
  Lines 152 to 163: a top-level \<open><script>\<close> or \<open><style>\<close>.  The error is raised after the
  index has been set back to \<open>start\<close>, and without an offset of its own.
\<close>

definition specialTag ::
  "special \<Rightarrow> env \<Rightarrow> string \<Rightarrow> nat \<Rightarrow> attribute list \<Rightarrow> parser \<Rightarrow> error + parser" where
  "specialTag sp env name start attrs p =
     (if slot sp p \<noteq> None
      then Inl (SyntaxError (''You can only have one top-level <'' @ name @ ''> tag per component'')
                  (index (p\<lparr>index := start\<rparr>)))
      else
        (case eatRequired ''>'' p of
           Inl e \<Rightarrow> Inl e
         | Inr p1 \<Rightarrow>
             (case readSpecial sp env p1 start attrs of
                Inl e \<Rightarrow> Inl e
              | Inr (c, consumed) \<Rightarrow> Inr (setSlot sp c (p1\<lparr>index := index p1 + consumed\<rparr>)))))"

text \<open>Lines 165 to 187: the element node.  \<open>element\<close> is its index in the arena.\<close>

definition elementTag :: "env \<Rightarrow> string \<Rightarrow> nat \<Rightarrow> attribute list \<Rightarrow> parser \<Rightarrow> error + parser" where
  "elementTag env name start attrs p =
     (case current p of
        None \<Rightarrow> Inl TypeError
      | Some cur \<Rightarrow>
          (let element = length (nodes p);
               p1 = pushChild cur
                      \<lparr>ntype = Element, nstart = start, nend = None, nname = Some name,
                       attributes = attrs, children = [], data = []\<rparr> p
           in case eat ''/'' p1 of (slash, p2) \<Rightarrow>
                (let selfClosing = (slash \<or> isVoidElementName env name)
                 in case eatRequired ''>'' p2 of
                      Inl e \<Rightarrow> Inl e
                    | Inr p3 \<Rightarrow>
                        if selfClosing
                        then Inr (p3\<lparr>nodes := (nodes p3)[element := (nodes p3 ! element)\<lparr>nend := Some (index p3)\<rparr>]\<rparr>)
                        else Inr (p3\<lparr>stack := element # stack p3\<rparr>))))"

text \<open>
  Lines 129 to 187: an opening tag.  \<open>parent\<close> is the top of the stack as it was when the
  tag began, \<open>None\<close> on an empty stack.
\<close>

definition openTag :: "env \<Rightarrow> string \<Rightarrow> nat \<Rightarrow> nat option \<Rightarrow> parser \<Rightarrow> error + parser" where
  "openTag env name start parent p =
     (case parent of
        None \<Rightarrow> Inl TypeError
      | Some par \<Rightarrow>
          (case readAttributes env (impliedClose name start par p) [] [] of
             Inl e \<Rightarrow> Inl e
           | Inr (attrs, uniqueNames, p1) \<Rightarrow>
               (let p2 = allowWhitespace p1 in
                case (if length (stack p2) = 1 then map_of specials name else None) of
                  Some sp \<Rightarrow> specialTag sp env name start attrs p2
                | None \<Rightarrow> elementTag env name start attrs p2)))"

definition tag :: "env \<Rightarrow> parser \<Rightarrow> error + parser" where
  "tag env p0 =
     (let start = index p0;
          p = p0\<lparr>index := index p0 + 1\<rparr>;
          parent = current p
      in case eat ''!--'' p of
           (True, p1) \<Rightarrow> commentTag start p1
         | (False, p1) \<Rightarrow>
             (case eat ''/'' p1 of (isClosingTag, p2) \<Rightarrow>
                (case readTagName p2 of
                   Inl e \<Rightarrow> Inl e
                 | Inr (name, p3) \<Rightarrow>
                     (case metaTagCheck name isClosingTag start p3 of
                        Inl e \<Rightarrow> Inl e
                      | Inr p4 \<Rightarrow>
                          if isClosingTag then closeTag env name start (allowWhitespace p4)
                          else openTag env name start parent (allowWhitespace p4)))))"

subsection \<open>The document driver and the collaborators, for running the tag state\<close>

text \<open>
  Modelled from the spec: the text state (the handler the driver runs between tags) is
  outside tag.js.  It reads up to the next \<open><\<close> or \<open>{{\<close> and appends a \<open>Text\<close> node to
  the children of the top of the stack.
\<close>

fun textRun :: "string \<Rightarrow> string" where
  "textRun [] = []"
| "textRun (c # cs) = (if c = CHR ''<'' \<or> take 2 (c # cs) = ''{{'' then [] else c # textRun cs)"

definition textState :: "env \<Rightarrow> parser \<Rightarrow> error + parser" where
  "textState env p =
     (let start = index p;
          d = textRun (remaining p);
          p1 = p\<lparr>index := index p + length d\<rparr>
      in case current p1 of
           None \<Rightarrow> Inl TypeError
         | Some cur \<Rightarrow>
             Inr (pushChild cur
                    \<lparr>ntype = Text, nstart = start, nend = Some (index p1), nname = None,
                     attributes = [], children = [], data = decodeCharacterReferences env d\<rparr> p1))"

text \<open>
  Modelled from the spec: the top-level document driver, which repeatedly dispatches to
  the tag handler at \<open><\<close> and to the text handler elsewhere, is outside tag.js.  The
  number bounds the rounds; \<open>None\<close> says that the bound was too small.  The mustache
  state is not part of this development: at \<open>{{\<close> the driver answers \<open>None\<close> as well.
\<close>

fun parseLoop :: "env \<Rightarrow> nat \<Rightarrow> parser \<Rightarrow> (error + parser) option" where
  "parseLoop env 0 p = (if index p < length (template p) then None else Some (Inr p))"
| "parseLoop env (Suc n) p =
     (if index p < length (template p) then
        if match ''{{'' p then None
        else
          (case (if match ''<'' p then tag env p else textState env p) of
             Inl e \<Rightarrow> Some (Inl e)
           | Inr p1 \<Rightarrow> parseLoop env n p1)
      else Some (Inr p))"

definition initialParser :: "string \<Rightarrow> parser" where
  "initialParser source =
     \<lparr>template = source, index = 0, stack = [0],
      nodes = [\<lparr>ntype = Fragment, nstart = 0, nend = Some (length source), nname = None,
                attributes = [], children = [], data = []\<rparr>],
      metaTagsSeen = [], js = None, css = None\<rparr>"

definition parse :: "env \<Rightarrow> string \<Rightarrow> (error + parser) option" where
  "parse env source = parseLoop env (length source) (initialParser source)"

text \<open>
  Modelled from the spec: stand-ins for the collaborators, for running the tag state on
  concrete templates.  The expression reader reads one identifier; a raw-content reader
  consumes up to and including the closing tag of its block and answers with a record of
  the span, the attributes and the raw text; the directive readers read a bare directive
  without a value; the character-reference decoder is the identity, which is what it is
  on text without \<open>&\<close>; the void elements are those of HTML.
\<close>

definition identifierReader :: "parser \<Rightarrow> error + (expression \<times> nat)" where
  "identifierReader p =
     (let ws = takeWhile whitespace (remaining p);
          w = takeWhile wordChar (drop (length ws) (remaining p));
          start = index p + length ws
      in if w = [] then Inl (SyntaxError ''Unexpected token'' start)
         else Inr (Identifier start (start + length w) w, length ws + length w))"

definition rawContentReader :: "string \<Rightarrow> parser \<Rightarrow> nat \<Rightarrow> attribute list \<Rightarrow> error + (content \<times> nat)" where
  "rawContentReader closingTag p start attrs =
     (let source = before closingTag (remaining p)
      in if length (remaining p) < length source + length closingTag
         then Inl (SyntaxError (''Expected '' @ closingTag) (index p))
         else Inr (\<lparr>c_start = start, c_end = index p + length source + length closingTag,
                    c_attributes = attrs, c_source = source\<rparr>,
                   length source + length closingTag))"

definition bareEventHandler :: "parser \<Rightarrow> nat \<Rightarrow> string \<Rightarrow> error + (attribute \<times> nat)" where
  "bareEventHandler p start name =
     (case identifierReader p of
        Inl e \<Rightarrow> Inl e
      | Inr (expression, consumed) \<Rightarrow> Inr (EventHandler start (index p + consumed) name expression, consumed))"

definition bareBinding :: "parser \<Rightarrow> nat \<Rightarrow> string \<Rightarrow> error + (attribute \<times> nat)" where
  "bareBinding p start name = Inr (Binding start (index p) name name, 0)"

definition htmlVoidElementNames :: "string list" where
  "htmlVoidElementNames =
     [''area'', ''base'', ''br'', ''col'', ''command'', ''doctype'', ''embed'', ''hr'', ''img'',
      ''input'', ''keygen'', ''link'', ''meta'', ''param'', ''source'', ''track'', ''wbr'']"

definition collaborators :: env where
  "collaborators =
     \<lparr>readExpression = identifierReader,
      readScript = rawContentReader ''</script>'',
      readStyle = rawContentReader ''</style>'',
      readEventHandlerDirective = bareEventHandler,
      readBindingDirective = bareBinding,
      decodeCharacterReferences = (\<lambda>s. s),
      isVoidElementName = (\<lambda>name. name \<in> set htmlVoidElementNames)\<rparr>"

subsection \<open>What the parts of the tag state leave alone\<close>

lemma readTagName_frame: "readTagName p = Inr (n, q) \<Longrightarrow> q = p\<lparr>index := index q\<rparr>"
  unfolding readTagName_def readUntil_def
  by (auto simp: Let_def eat_def split: if_splits prod.splits bool.splits)

lemma readAttributes_frame:
  "readAttributes env p attrs u = Inr (attrs', u', q) \<Longrightarrow> q = p\<lparr>index := index q\<rparr>"
proof (induction env p attrs u rule: readAttributes.induct)
  case (1 env p attrs uniqueNames)
  from "1.prems" show ?case
  proof (subst (asm) readAttributes.simps, cases "readAttribute env p uniqueNames")
    case (Inl e)
    with "1.prems" show ?thesis by (subst (asm) readAttributes.simps) simp
  next
    case (Inr x)
    obtain r u1 p1 where x: "x = (r, u1, p1)" by (cases x) auto
    from readAttribute_frame(1)[OF Inr[unfolded x]] have p1: "p1 = p\<lparr>index := index p1\<rparr>" .
    show ?thesis
    proof (cases r)
      case None
      with "1.prems" Inr x have "q = p1" by (subst (asm) readAttributes.simps) simp
      with p1 show ?thesis by simp
    next
      case (Some a)
      with "1.prems" Inr x have rec: "readAttributes env (allowWhitespace p1) (attrs @ [a]) u1 = Inr (attrs', u', q)"
        by (subst (asm) readAttributes.simps) simp
      from "1.IH"[OF Inr x[symmetric] Some refl rec]
      have "q = (allowWhitespace p1)\<lparr>index := index q\<rparr>" .
      with p1 show ?thesis
        by (cases p1) (auto simp: allowWhitespace_def)
    qed
  qed
qed

lemma stripWhitespace_length: "length (stripWhitespace e ns) = length ns"
  by (simp add: stripWhitespace_def Let_def)

lemma stripWhitespace_other:
  assumes "i \<noteq> e" and "ntype (ns ! i) \<noteq> Text"
  shows "stripWhitespace e ns ! i = ns ! i"
proof -
  have a: "\<And>ms j x. ntype (ms ! j) = Text \<Longrightarrow> ntype (ms ! i) \<noteq> Text \<Longrightarrow> ms[j := x] ! i = ms ! i"
    by (metis nth_list_update_neq)
  have b: "\<And>ms x. ms[e := x] ! i = ms ! i"
    using assms(1) by simp
  show ?thesis
    unfolding stripWhitespace_def Let_def using assms(2)
    by (simp add: a b)
qed

lemma autoClose_frame:
  "autoClose name start st ns = Inr (par, below, ns') \<Longrightarrow>
     length ns' = length ns \<and> par \<in> set st \<and> set below \<subseteq> set st \<and> (\<forall>i. i \<notin> set st \<longrightarrow> ns' ! i = ns ! i)"
proof (induction name start st ns rule: autoClose.induct)
  case (1 name start ns)
  then show ?case by simp
next
  case (2 name start parent below0 ns)
  show ?case
  proof (cases "nname (ns ! parent) \<noteq> Some name")
    case True
    with "2.prems" have el: "ntype (ns ! parent) = Element"
      and rec: "autoClose name start below0 (ns[parent := (ns ! parent)\<lparr>nend := Some start\<rparr>]) = Inr (par, below, ns')"
      by (auto split: if_splits)
    from "2.IH"[OF True _ rec] el show ?thesis
      by (auto simp: nth_list_update)
  next
    case False
    with "2.prems" show ?thesis by auto
  qed
qed

lemma metaTagCheck_frame:
  assumes "metaTagCheck name isClosingTag start p = Inr q"
  shows "q = p\<lparr>metaTagsSeen := metaTagsSeen q\<rparr>" and "set (metaTagsSeen p) \<subseteq> set (metaTagsSeen q)"
  using assms unfolding metaTagCheck_def
  by (auto simp: Let_def split: if_splits option.splits)

lemma current_in_stack: "current p = Some cur \<Longrightarrow> cur \<in> set (stack p)"
  by (auto simp: current_def split: list.splits)

text \<open>
  A node that is in the arena, is not on the open-element stack and is not a \<open>Text\<close>
  node: no part of the tag state, and no later round of the driver, touches it.
\<close>

definition closedNode :: "nat \<Rightarrow> parser \<Rightarrow> bool" where
  "closedNode el p = (el < length (nodes p) \<and> el \<notin> set (stack p) \<and> ntype (nodes p ! el) \<noteq> Text)"

lemma commentTag_closedNode:
  assumes "closedNode el p" and "commentTag start p = Inr q"
  shows "closedNode el q \<and> nodes q ! el = nodes p ! el"
  using assms unfolding commentTag_def readUntilLiteral_def closedNode_def
  by (auto simp: Let_def eat_def pushChild_def current_def nth_append nth_list_update
      split: if_splits option.splits list.splits)

lemma closeTag_closedNode:
  assumes "closedNode el p" and "closeTag env name start p = Inr q"
  shows "closedNode el q \<and> nodes q ! el = nodes p ! el"
proof -
  from assms(2) obtain parent below ns where
    ac: "autoClose name start (stack p) (nodes p) = Inr (parent, below, ns)"
    and q: "stack q = below"
      "nodes q = (stripWhitespace parent ns)[parent := (stripWhitespace parent ns ! parent)\<lparr>nend := Some (index q)\<rparr>]"
    unfolding closeTag_def
    by (auto simp: Let_def eat_def split: if_splits sum.splits)
  from autoClose_frame[OF ac] assms(1)
  have f: "length ns = length (nodes p)" "parent \<in> set (stack p)" "set below \<subseteq> set (stack p)"
    "ns ! el = nodes p ! el"
    by (auto simp: closedNode_def)
  with assms(1) have "el \<noteq> parent" "ntype (ns ! el) \<noteq> Text" "el \<notin> set below" "el < length ns"
    by (auto simp: closedNode_def)
  then show ?thesis
    unfolding q closedNode_def using f(4)
    by (simp add: stripWhitespace_length stripWhitespace_other)
qed

lemma impliedClose_closedNode:
  assumes "closedNode el p" and "current p = Some parent"
  shows "closedNode el (impliedClose name start parent p)
         \<and> nodes (impliedClose name start parent p) ! el = nodes p ! el
         \<and> set (stack (impliedClose name start parent p)) \<subseteq> set (stack p)
         \<and> length (nodes (impliedClose name start parent p)) = length (nodes p)"
proof -
  from current_in_stack[OF assms(2)] assms(1) have "el \<noteq> parent" "ntype (nodes p ! el) \<noteq> Text"
    by (auto simp: closedNode_def)
  moreover have "set (tl (stack p)) \<subseteq> set (stack p)"
    by (cases "stack p") auto
  ultimately show ?thesis
    using assms(1) unfolding impliedClose_def closedNode_def
    by (auto simp: Let_def stripWhitespace_length stripWhitespace_other split: option.splits)
qed


lemma closedNode_index [simp]: "closedNode el (p\<lparr>index := i\<rparr>) = closedNode el p"
  by (simp add: closedNode_def)

lemma current_index [simp]: "current (p\<lparr>index := i\<rparr>) = current p"
  by (simp add: current_def)

lemma specialTag_frame:
  "specialTag sp env name start attrs p = Inr q \<Longrightarrow> stack q = stack p \<and> nodes q = nodes p"
  unfolding specialTag_def
  by (auto simp: eatRequired_def setSlot_def split: if_splits sum.splits special.splits)

lemma elementTag_closedNode:
  assumes "closedNode el p" and "elementTag env name start attrs p = Inr q"
  shows "closedNode el q \<and> nodes q ! el = nodes p ! el"
  using assms unfolding elementTag_def closedNode_def
  by (auto simp: Let_def eat_def eatRequired_def pushChild_def current_def nth_append nth_list_update
      split: if_splits option.splits list.splits sum.splits)

lemma openTag_closedNode:
  assumes cl: "closedNode el p" and ok: "openTag env name start (current p) p = Inr q"
  shows "closedNode el q \<and> nodes q ! el = nodes p ! el"
proof -
  from ok obtain par where par: "current p = Some par"
    unfolding openTag_def by (auto split: option.splits)
  define p0 where "p0 = impliedClose name start par p"
  from impliedClose_closedNode[OF cl par, of name start]
  have p0: "closedNode el p0" "nodes p0 ! el = nodes p ! el"
    by (simp_all add: p0_def)
  from ok par obtain attrs u p1 where
    ra: "readAttributes env p0 [] [] = Inr (attrs, u, p1)"
    unfolding openTag_def p0_def by (auto split: sum.splits)
  from readAttributes_frame[OF ra] have p1: "p1 = p0\<lparr>index := index p1\<rparr>" .
  define p2 where "p2 = allowWhitespace p1"
  have p2: "p2 = p0\<lparr>index := index p2\<rparr>"
    unfolding p2_def allowWhitespace_def by (subst p1) simp
  have c2: "closedNode el p2" "nodes p2 ! el = nodes p ! el"
    using p0 by (subst p2, simp)+
  from ok have body:
    "(\<exists>sp. specialTag sp env name start attrs p2 = Inr q) \<or> elementTag env name start attrs p2 = Inr q"
    unfolding openTag_def Let_def
    by (auto simp: par p0_def[symmetric] ra p2_def[symmetric] split: option.splits if_splits)
  then show ?thesis
  proof
    assume "\<exists>sp. specialTag sp env name start attrs p2 = Inr q"
    then obtain sp where "specialTag sp env name start attrs p2 = Inr q" ..
    from specialTag_frame[OF this] c2 show ?thesis
      by (simp add: closedNode_def)
  next
    assume "elementTag env name start attrs p2 = Inr q"
    from elementTag_closedNode[OF c2(1) this] c2(2) show ?thesis
      by simp
  qed
qed

lemma tag_closedNode:
  assumes cl: "closedNode el p" and ok: "tag env p = Inr q"
  shows "closedNode el q \<and> nodes q ! el = nodes p ! el"
proof -
  define p' where "p' = p\<lparr>index := index p + 1\<rparr>"
  show ?thesis
  proof (cases "match ''!--'' p'")
    case True
    then obtain p1 where e: "eat ''!--'' p' = (True, p1)" and p1: "p1 = p\<lparr>index := index p1\<rparr>"
      by (simp add: eat_def p'_def)
    with ok have "commentTag (index p) p1 = Inr q"
      unfolding tag_def p'_def[symmetric] by (simp add: Let_def p'_def)
    moreover from cl have "closedNode el p1"
      by (subst p1) simp
    ultimately have "closedNode el q \<and> nodes q ! el = nodes p1 ! el"
      using commentTag_closedNode by blast
    moreover have "nodes p1 = nodes p"
      by (subst p1) simp
    ultimately show ?thesis
      by simp
  next
    case False
    obtain isClosingTag p2 where e: "eat ''/'' p' = (isClosingTag, p2)"
      by (cases "eat ''/'' p'") auto
    then have p2: "p2 = p\<lparr>index := index p2\<rparr>"
      by (auto simp: eat_def p'_def split: if_splits)
    from ok False e obtain name p3 p4 where
      rt: "readTagName p2 = Inr (name, p3)"
      and mt: "metaTagCheck name isClosingTag (index p) p3 = Inr p4"
      and body: "(if isClosingTag then closeTag env name (index p) (allowWhitespace p4)
                  else openTag env name (index p) (current p') (allowWhitespace p4)) = Inr q"
      unfolding tag_def p'_def[symmetric]
      by (auto simp: Let_def eat_def p'_def split: if_splits sum.splits)
    have p3: "stack p3 = stack p" "nodes p3 = nodes p"
      using only_index[OF readTagName_frame[OF rt]] only_index[OF p2] by simp_all
    have p4: "stack p4 = stack p" "nodes p4 = nodes p"
      using only_metaTagsSeen[OF metaTagCheck_frame(1)[OF mt]] p3 by simp_all
    define p5 where "p5 = allowWhitespace p4"
    have p5: "stack p5 = stack p" "nodes p5 = nodes p"
      using p4 by (simp_all add: p5_def allowWhitespace_def)
    then have c5: "closedNode el p5" "current p' = current p5"
      using cl by (simp_all add: closedNode_def current_def p'_def)
    show ?thesis
    proof (cases isClosingTag)
      case True
      with body have "closeTag env name (index p) p5 = Inr q" by (simp add: p5_def)
      from closeTag_closedNode[OF c5(1) this] p5 show ?thesis by simp
    next
      case False
      with body c5 have "openTag env name (index p) (current p5) p5 = Inr q" by (simp add: p5_def)
      from openTag_closedNode[OF c5(1) this] p5 show ?thesis by simp
    qed
  qed
qed

lemma textState_closedNode:
  assumes "closedNode el p" and "textState env p = Inr q"
  shows "closedNode el q \<and> nodes q ! el = nodes p ! el"
  using assms unfolding textState_def closedNode_def
  by (auto simp: Let_def pushChild_def current_def nth_append nth_list_update
      split: if_splits option.splits list.splits)

lemma parseLoop_closedNode:
  "closedNode el p \<Longrightarrow> parseLoop env n p = Some (Inr q) \<Longrightarrow> closedNode el q \<and> nodes q ! el = nodes p ! el"
proof (induction n arbitrary: p)
  case 0
  then show ?case by (auto split: if_splits)
next
  case (Suc n)
  show ?case
  proof (cases "index p < length (template p)")
    case False
    with Suc.prems show ?thesis by simp
  next
    case True
    with Suc.prems obtain p1 where
      step: "tag env p = Inr p1 \<or> textState env p = Inr p1" and rest: "parseLoop env n p1 = Some (Inr q)"
      by (auto split: if_splits sum.splits)
    from step Suc.prems(1) have "closedNode el p1 \<and> nodes p1 ! el = nodes p ! el"
      using tag_closedNode textState_closedNode by blast
    with Suc.IH[OF _ rest] show ?thesis by simp
  qed
qed

subsection \<open>The paths through the tag state\<close>

lemma tag_opening:
  assumes "\<not> match ''!--'' (p\<lparr>index := index p + 1\<rparr>)"
    and "\<not> match ''/'' (p\<lparr>index := index p + 1\<rparr>)"
    and "readTagName (p\<lparr>index := index p + 1\<rparr>) = Inr (name, p1)"
  shows "tag env p =
           (case metaTagCheck name False (index p) p1 of
              Inl e \<Rightarrow> Inl e
            | Inr p2 \<Rightarrow> openTag env name (index p) (current p) (allowWhitespace p2))"
  using assms unfolding tag_def by (simp add: Let_def eat_def split: sum.splits)

lemma tag_closing:
  assumes "\<not> match ''!--'' (p\<lparr>index := index p + 1\<rparr>)"
    and "match ''/'' (p\<lparr>index := index p + 1\<rparr>)"
    and "readTagName (p\<lparr>index := index p + 2\<rparr>) = Inr (name, p1)"
  shows "tag env p =
           (case metaTagCheck name True (index p) p1 of
              Inl e \<Rightarrow> Inl e
            | Inr p2 \<Rightarrow> closeTag env name (index p) (allowWhitespace p2))"
  using assms unfolding tag_def by (simp add: Let_def eat_def split: sum.splits)

lemma openTag_cases:
  assumes "openTag env name start (current p) p = Inr q"
  obtains par attrs u p1 where
    "current p = Some par"
    "readAttributes env (impliedClose name start par p) [] [] = Inr (attrs, u, p1)"
    "(\<exists>sp. length (stack p1) = 1 \<and> map_of specials name = Some sp
           \<and> specialTag sp env name start attrs (allowWhitespace p1) = Inr q)
     \<or> elementTag env name start attrs (allowWhitespace p1) = Inr q"
  using assms unfolding openTag_def Let_def
  by (auto simp: allowWhitespace_def split: option.splits sum.splits if_splits)

lemma impliedClose_stack:
  "set (stack (impliedClose name start par p)) \<subseteq> set (stack p)"
  "length (nodes (impliedClose name start par p)) = length (nodes p)"
proof -
  have "set (tl (stack p)) \<subseteq> set (stack p)"
    by (cases "stack p") auto
  then show "set (stack (impliedClose name start par p)) \<subseteq> set (stack p)"
    unfolding impliedClose_def by (auto simp: Let_def split: option.splits)
  show "length (nodes (impliedClose name start par p)) = length (nodes p)"
    unfolding impliedClose_def by (auto simp: Let_def stripWhitespace_length split: option.splits)
qed

lemma elementTag_selfClosing:
  assumes wf: "\<forall>i\<in>set (stack p). i < length (nodes p)"
    and void: "isVoidElementName env name"
    and ok: "elementTag env name start attrs p = Inr q"
  shows "stack q = stack p \<and> length (nodes q) = Suc (length (nodes p))
         \<and> nodes q ! length (nodes p) =
             \<lparr>ntype = Element, nstart = start, nend = Some (index q), nname = Some name,
              attributes = attrs, children = [], data = []\<rparr>
         \<and> stack q \<noteq> []
         \<and> children (nodes q ! hd (stack q)) = children (nodes p ! hd (stack p)) @ [length (nodes p)]"
  using assms unfolding elementTag_def
  by (auto simp: Let_def eat_def eatRequired_def pushChild_def current_def nth_append nth_list_update
      split: if_splits option.splits list.splits sum.splits)

subsection \<open>Registered meta-tag names are kept\<close>

lemma jsIn_mono: "set a \<subseteq> set b \<Longrightarrow> jsIn name a \<Longrightarrow> jsIn name b"
  by (auto simp: jsIn_def)

lemma commentTag_metaTagsSeen: "commentTag start p = Inr q \<Longrightarrow> metaTagsSeen q = metaTagsSeen p"
  unfolding commentTag_def readUntilLiteral_def
  by (auto simp: Let_def eat_def pushChild_def split: if_splits option.splits)

lemma closeTag_metaTagsSeen: "closeTag env name start p = Inr q \<Longrightarrow> metaTagsSeen q = metaTagsSeen p"
  unfolding closeTag_def
  by (auto simp: Let_def eat_def split: if_splits sum.splits)

lemma impliedClose_metaTagsSeen: "metaTagsSeen (impliedClose name start par p) = metaTagsSeen p"
  unfolding impliedClose_def by (auto simp: Let_def split: option.splits)

lemma specialTag_metaTagsSeen:
  "specialTag sp env name start attrs p = Inr q \<Longrightarrow> metaTagsSeen q = metaTagsSeen p"
  unfolding specialTag_def
  by (auto simp: eatRequired_def setSlot_def split: if_splits sum.splits special.splits)

lemma elementTag_metaTagsSeen:
  "elementTag env name start attrs p = Inr q \<Longrightarrow> metaTagsSeen q = metaTagsSeen p"
  unfolding elementTag_def
  by (auto simp: Let_def eat_def eatRequired_def pushChild_def split: if_splits option.splits sum.splits)

lemma openTag_metaTagsSeen:
  assumes "openTag env name start (current p) p = Inr q"
  shows "metaTagsSeen q = metaTagsSeen p"
proof -
  from assms obtain par attrs u p1 where
    ra: "readAttributes env (impliedClose name start par p) [] [] = Inr (attrs, u, p1)"
    and body: "(\<exists>sp. length (stack p1) = 1 \<and> map_of specials name = Some sp
                  \<and> specialTag sp env name start attrs (allowWhitespace p1) = Inr q)
               \<or> elementTag env name start attrs (allowWhitespace p1) = Inr q"
    by (elim openTag_cases)
  have "metaTagsSeen p1 = metaTagsSeen p"
    using only_index(4)[OF readAttributes_frame[OF ra]] by (simp add: impliedClose_metaTagsSeen)
  then have "metaTagsSeen (allowWhitespace p1) = metaTagsSeen p"
    by (simp add: allowWhitespace_def)
  with body show ?thesis
    by (auto dest: specialTag_metaTagsSeen elementTag_metaTagsSeen)
qed

lemma tag_metaTagsSeen:
  assumes ok: "tag env p = Inr q"
  shows "set (metaTagsSeen p) \<subseteq> set (metaTagsSeen q)"
proof -
  define p' where "p' = p\<lparr>index := index p + 1\<rparr>"
  show ?thesis
  proof (cases "match ''!--'' p'")
    case True
    then obtain p1 where e: "eat ''!--'' p' = (True, p1)" and p1: "metaTagsSeen p1 = metaTagsSeen p"
      by (simp add: eat_def p'_def)
    with ok have "commentTag (index p) p1 = Inr q"
      unfolding tag_def p'_def[symmetric] by (simp add: Let_def p'_def)
    from commentTag_metaTagsSeen[OF this] p1 show ?thesis by simp
  next
    case nc: False
    show ?thesis
    proof (cases "match ''/'' p'")
      case True
      from ok nc True obtain name p1 where rt: "readTagName (p\<lparr>index := index p + 2\<rparr>) = Inr (name, p1)"
        unfolding tag_def p'_def by (auto simp: Let_def eat_def split: sum.splits)
      from ok tag_closing[OF nc[unfolded p'_def] True[unfolded p'_def] rt, of env] obtain p2 where
        mt: "metaTagCheck name True (index p) p1 = Inr p2"
        and ct: "closeTag env name (index p) (allowWhitespace p2) = Inr q"
        by (auto split: sum.splits)
      have "metaTagsSeen p1 = metaTagsSeen p"
        using only_index(4)[OF readTagName_frame[OF rt]] by simp
      with metaTagCheck_frame(2)[OF mt] closeTag_metaTagsSeen[OF ct] show ?thesis
        by (simp add: allowWhitespace_def)
    next
      case False
      from ok nc False obtain name p1 where rt: "readTagName (p\<lparr>index := index p + 1\<rparr>) = Inr (name, p1)"
        unfolding tag_def p'_def by (auto simp: Let_def eat_def split: sum.splits)
      from ok tag_opening[OF nc[unfolded p'_def] False[unfolded p'_def] rt, of env] obtain p2 where
        mt: "metaTagCheck name False (index p) p1 = Inr p2"
        and ot: "openTag env name (index p) (current p) (allowWhitespace p2) = Inr q"
        by (auto split: sum.splits)
      have p1: "metaTagsSeen p1 = metaTagsSeen p" "stack p1 = stack p"
        using only_index[OF readTagName_frame[OF rt]] by simp_all
      have "stack p2 = stack p"
        using only_metaTagsSeen(3)[OF metaTagCheck_frame(1)[OF mt]] p1 by simp
      then have "current p = current (allowWhitespace p2)"
        by (simp add: current_def allowWhitespace_def)
      with ot have "metaTagsSeen q = metaTagsSeen (allowWhitespace p2)"
        by (simp add: openTag_metaTagsSeen)
      with metaTagCheck_frame(2)[OF mt] p1 show ?thesis
        by (simp add: allowWhitespace_def)
    qed
  qed
qed

lemma textState_metaTagsSeen: "textState env p = Inr q \<Longrightarrow> metaTagsSeen q = metaTagsSeen p"
  unfolding textState_def
  by (auto simp: Let_def pushChild_def split: option.splits)

lemma step_keeps_registration:
  assumes "jsIn name (metaTagsSeen r)" and "tag env r = Inr r' \<or> textState env r = Inr r'"
  shows "jsIn name (metaTagsSeen r')"
  using assms tag_metaTagsSeen[of env r r'] textState_metaTagsSeen[of env r r']
  by (auto intro: jsIn_mono)

lemma metaTagCheck_registers:
  "jsIn name metaTags \<Longrightarrow> metaTagCheck name False start p = Inr q \<Longrightarrow> jsIn name (metaTagsSeen q)"
  unfolding metaTagCheck_def
  by (auto simp: Let_def jsIn_def split: if_splits)

lemma opening_registers:
  assumes nc: "\<not> match ''!--'' (p\<lparr>index := index p + 1\<rparr>)"
    and no: "\<not> match ''/'' (p\<lparr>index := index p + 1\<rparr>)"
    and rt: "readTagName (p\<lparr>index := index p + 1\<rparr>) = Inr (name, p1)"
    and meta: "jsIn name metaTags"
    and ok: "tag env p = Inr q"
  shows "jsIn name (metaTagsSeen q)"
proof -
  from ok tag_opening[OF nc no rt, of env] obtain p2 where
    mt: "metaTagCheck name False (index p) p1 = Inr p2"
    and ot: "openTag env name (index p) (current p) (allowWhitespace p2) = Inr q"
    by (auto split: sum.splits)
  have p1: "stack p1 = stack p"
    using only_index(2)[OF readTagName_frame[OF rt]] by simp
  have "stack p2 = stack p"
    using only_metaTagsSeen(3)[OF metaTagCheck_frame(1)[OF mt]] p1 by simp
  then have "current p = current (allowWhitespace p2)"
    by (simp add: current_def allowWhitespace_def)
  with ot have "metaTagsSeen q = metaTagsSeen (allowWhitespace p2)"
    by (simp add: openTag_metaTagsSeen)
  with metaTagCheck_registers[OF meta mt] show ?thesis
    by (simp add: allowWhitespace_def)
qed

subsection \<open>The names of the raw-content blocks\<close>

lemma specials_names: "map_of specials name = Some sp \<Longrightarrow> name = ''script'' \<or> name = ''style''"
  by (auto simp: specials_def split: if_splits)

lemma special_not_disallowed:
  assumes "name = ''script'' \<or> name = ''style''"
    and "map_of disallowedContents parentName = Some names"
  shows "name \<notin> set names"
  using assms by (auto simp: disallowedContents_def split: if_splits)

lemma special_not_meta:
  "name = ''script'' \<or> name = ''style'' \<Longrightarrow> \<not> jsIn name metaTags"
  by (auto simp: jsIn_def metaTags_def objectPrototypeKeys_def)

lemma impliedClose_special:
  "name = ''script'' \<or> name = ''style'' \<Longrightarrow> impliedClose name start par p = p"
  unfolding impliedClose_def
  using special_not_disallowed[of name]
  by (auto split: option.splits)

subsection \<open>Attribute tokens and attribute names\<close>

text \<open>The \<open>name\<close> field of an attribute record.\<close>

fun attributeName :: "attribute \<Rightarrow> string" where
  "attributeName (Attribute s e n v) = n"
| "attributeName (Ref s e n) = n"
| "attributeName (EventHandler s e n x) = n"
| "attributeName (Binding s e n v) = n"

text \<open>
  The name that lines 247 to 272 give to the attribute of a token that is not a
  directive: what follows \<open>ref:\<close>, what follows the colon of a shorthand, or the token.
\<close>

definition writtenName :: "string \<Rightarrow> string" where
  "writtenName token =
     (if take 4 token = ''ref:'' then drop 4 token
      else if isShorthand token then drop 1 token
      else token)"

definition directiveToken :: "string \<Rightarrow> bool" where
  "directiveToken token = (take 3 token = ''on:'' \<or> take 5 token = ''bind:'')"

lemma readAttribute_None:
  "readAttribute env p seen = Inr (None, seen', q) \<Longrightarrow> seen' = seen"
  unfolding readAttribute_def
  by (auto simp: Let_def split: if_splits sum.splits prod.splits bool.splits)

lemma readAttribute_Some:
  assumes "readAttribute env p seen = Inr (Some a, seen', q)"
  shows "\<exists>token. seen' = seen @ [token] \<and> token \<notin> set seen
           \<and> (\<not> directiveToken token \<longrightarrow> attributeName a = writtenName token)"
proof -
  from assms have "\<exists>token p1. readUntil attributeNameEnd p = Inr (token, p1)"
    unfolding readAttribute_def Let_def by (cases "readUntil attributeNameEnd p") auto
  then obtain token p1 where ru: "readUntil attributeNameEnd p = Inr (token, p1)"
    by blast
  from assms ru have ne: "token \<noteq> []" "token \<notin> set seen"
    unfolding readAttribute_def by (auto simp: Let_def split: if_splits)
  show ?thesis
  proof (cases "directiveToken token")
    case True
    with assms ru ne have "seen' = seen @ [token]"
      unfolding readAttribute_def directiveToken_def
      by (auto simp: Let_def split: if_splits sum.splits prod.splits)
    with True ne show ?thesis by blast
  next
    case False
    then have nd: "take 3 token \<noteq> ''on:''" "take 5 token \<noteq> ''bind:''"
      by (simp_all add: directiveToken_def)
    from assms have "seen' = seen @ [token] \<and> attributeName a = writtenName token"
      unfolding readAttribute_def writtenName_def
      by (auto simp: ru ne nd Let_def split: if_splits sum.splits prod.splits bool.splits)
    with ne show ?thesis by blast
  qed
qed

lemma readAttributes_tokens:
  "readAttributes env p attrs seen = Inr (attrs', seen', q) \<Longrightarrow>
     \<exists>new tokens. attrs' = attrs @ new \<and> seen' = seen @ tokens
        \<and> (distinct seen \<longrightarrow> distinct seen')
        \<and> list_all2 (\<lambda>token a. \<not> directiveToken token \<longrightarrow> attributeName a = writtenName token) tokens new"
proof (induction env p attrs seen rule: readAttributes.induct)
  case (1 env p attrs seen)
  from "1.prems" obtain r u1 p1 where ra: "readAttribute env p seen = Inr (r, u1, p1)"
    by (subst (asm) readAttributes.simps) (auto split: sum.splits)
  show ?case
  proof (cases r)
    case None
    with "1.prems" ra readAttribute_None[of env p seen u1 p1] show ?thesis
      by (subst (asm) readAttributes.simps) auto
  next
    case (Some a)
    with "1.prems" ra have rec: "readAttributes env (allowWhitespace p1) (attrs @ [a]) u1 = Inr (attrs', seen', q)"
      by (subst (asm) readAttributes.simps) simp
    from "1.IH"[OF ra refl Some refl rec] obtain new tokens where
      ih: "attrs' = (attrs @ [a]) @ new" "seen' = u1 @ tokens" "distinct u1 \<longrightarrow> distinct seen'"
      "list_all2 (\<lambda>token a. \<not> directiveToken token \<longrightarrow> attributeName a = writtenName token) tokens new"
      by blast
    from readAttribute_Some[OF ra[unfolded Some]] obtain token where
      tok: "u1 = seen @ [token]" "token \<notin> set seen"
      "\<not> directiveToken token \<longrightarrow> attributeName a = writtenName token"
      by blast
    have "attrs' = attrs @ (a # new)" "seen' = seen @ (token # tokens)"
      using ih tok by simp_all
    moreover have "distinct seen \<longrightarrow> distinct seen'"
      using ih(3) tok by simp
    moreover have "list_all2 (\<lambda>token a. \<not> directiveToken token \<longrightarrow> attributeName a = writtenName token)
                     (token # tokens) (a # new)"
      using ih(4) tok(3) by simp
    ultimately show ?thesis by blast
  qed
qed

subsection \<open>Attribute values of one chunk\<close>

lemma match_Cons:
  "match (c # s) p \<longleftrightarrow>
     index p < length (template p) \<and> template p ! index p = c \<and> match s (p\<lparr>index := index p + 1\<rparr>)"
proof (cases "index p < length (template p)")
  case True
  then have "drop (index p) (template p) = template p ! index p # drop (Suc (index p)) (template p)"
    by (simp add: Cons_nth_drop_Suc)
  with True show ?thesis
    by (simp add: match_def remaining_def)
next
  case False
  then show ?thesis
    by (simp add: match_def remaining_def)
qed

lemma match_Nil: "match [] p"
  by (simp add: match_def)

lemma loop_mustache:
  assumes m1: "match ''{{'' p"
    and p1: "p1 = p\<lparr>index := index p + 2\<rparr>"
    and rd: "readExpression env p1 = Inr (e, k)"
    and p2: "p2 = allowWhitespace (p1\<lparr>index := index p1 + k\<rparr>)"
    and m2: "match ''}}'' p2"
  shows "readAttributeValueLoop env quoteMark p chunkStart [] chunks =
           readAttributeValueLoop env quoteMark (p2\<lparr>index := index p2 + 2\<rparr>) (index p2 + 2) []
             (chunks @ [MustacheTag (index p) (index p2 + 2) e])"
proof -
  from m1 have lt: "index p < length (template p)"
    by (simp add: match_Cons)
  have e1: "eat ''{{'' p = (True, p1)"
    by (simp add: eat_def m1 p1)
  have e2: "eat ''}}'' p2 = (True, p2\<lparr>index := index p2 + 2\<rparr>)"
    by (simp add: eat_def m2)
  show ?thesis
    by (subst readAttributeValueLoop.simps) (simp add: lt e1 rd Let_def p2[symmetric] e2)
qed

lemma loop_closing_quote:
  assumes "index p < length (template p)" and "template p ! index p = c" and "c \<noteq> CHR ''{''"
  shows "readAttributeValueLoop env (Some c) p chunkStart [] chunks =
           Inr (map (decodeChunk env) chunks, p\<lparr>index := index p + 1\<rparr>)"
proof -
  from assms have "\<not> match ''{{'' p"
    by (simp add: match_Cons)
  with assms show ?thesis
    by (subst readAttributeValueLoop.simps) (simp add: eat_def isDone_def Let_def)
qed

lemma shorthand_attribute:
  assumes "readUntil attributeNameEnd p = Inr (CHR '':'' # w, p1)" and "w \<noteq> []"
    and "list_all wordChar w" and "CHR '':'' # w \<notin> set seen"
  shows "readAttribute env p seen =
          Inr (Some (Attribute (index p) (index (allowWhitespace p1)) w
                       (Chunks [AttributeShorthand (index p + 1) (index p + 1 + length w)
                                  (Identifier (index p + 1) (index p + 1 + length w) w)])),
               seen @ [CHR '':'' # w], allowWhitespace p1)"
  using assms unfolding readAttribute_def
  by (simp add: Let_def isShorthand_def getShorthandValue_def take_Cons')

lemma mustache_attribute:
  assumes ru: "readUntil attributeNameEnd p = Inr (name, p1)"
    and ne: "name \<noteq> []" "name \<notin> set seen"
    and plain: "\<not> directiveToken name" "take 4 name \<noteq> ''ref:''" "\<not> isShorthand name"
    and q: "q = allowWhitespace p1"
    and mq: "match (''='' @ [CHR 0x22] @ ''{{'') q"
    and rd: "readExpression env (q\<lparr>index := index q + 4\<rparr>) = Inr (e, k)"
    and r: "r = allowWhitespace (q\<lparr>index := index q + 4 + k\<rparr>)"
    and mr: "match (''}}'' @ [CHR 0x22]) r"
  shows "readAttribute env p seen =
          Inr (Some (Attribute (index p) (index r + 3) name
                       (Chunks [MustacheTag (index q + 2) (index r + 2) e])),
               seen @ [name], r\<lparr>index := index r + 3\<rparr>)"
proof -
  from plain have nd: "take 3 name \<noteq> ''on:''" "take 5 name \<noteq> ''bind:''"
    by (simp_all add: directiveToken_def)
  define q1 where "q1 = q\<lparr>index := index q + 1\<rparr>"
  define q2 where "q2 = q\<lparr>index := index q + 2\<rparr>"
  define q4 where "q4 = q2\<lparr>index := index q2 + 2\<rparr>"
  from mq have m: "match ''='' q" "\<not> match [CHR 0x27] q1" "match [CHR 0x22] q1" "match ''{{'' q2"
    by (simp_all add: match_Cons match_Nil q1_def q2_def)
  have q4: "q4 = q\<lparr>index := index q + 4\<rparr>"
    by (simp add: q4_def q2_def add.assoc)
  have rd4: "readExpression env q4 = Inr (e, k)"
    using rd by (simp only: q4)
  have "q4\<lparr>index := index q4 + k\<rparr> = q\<lparr>index := index q + 4 + k\<rparr>"
    by (simp only: q4) simp
  then have r4: "r = allowWhitespace (q4\<lparr>index := index q4 + k\<rparr>)"
    using r by (simp only:)
  from mr have m2: "match ''}}'' r" and quote: "index r + 2 < length (template r)"
    "template r ! (index r + 2) = CHR 0x22"
    by (simp_all add: match_Cons match_Nil)
  have e1: "eat [CHR 0x27] q1 = (False, q1)" "eat [CHR 0x22] q1 = (True, q2)"
    using m(2,3) by (simp_all add: eat_def q1_def q2_def)
  have "readAttributeValue env q1 = readAttributeValueLoop env (Some (CHR 0x22)) q2 (index q2) [] []"
    unfolding readAttributeValue_def by (simp add: e1)
  also have "\<dots> = readAttributeValueLoop env (Some (CHR 0x22)) (r\<lparr>index := index r + 2\<rparr>) (index r + 2) []
                      ([] @ [MustacheTag (index q2) (index r + 2) e])"
    by (rule loop_mustache[OF m(4) q4_def rd4 r4 m2])
  also have "\<dots> = Inr (map (decodeChunk env) ([] @ [MustacheTag (index q2) (index r + 2) e]),
                       (r\<lparr>index := index r + 2\<rparr>)\<lparr>index := index (r\<lparr>index := index r + 2\<rparr>) + 1\<rparr>)"
    using quote by (intro loop_closing_quote) simp_all
  finally have rav: "readAttributeValue env q1 =
      Inr ([MustacheTag (index q + 2) (index r + 2) e], r\<lparr>index := index r + 3\<rparr>)"
    by (simp add: q2_def add.assoc)
  have e0: "eat ''='' (allowWhitespace p1) = (True, q1)"
    using m(1) by (simp add: eat_def q1_def q[symmetric])
  show ?thesis
    unfolding readAttribute_def
    by (simp add: ru ne plain nd Let_def e0 rav)
qed

text \<open>The \<open>type\<close> field of a chunk of an attribute value.\<close>

fun chunkType :: "chunk \<Rightarrow> string" where
  "chunkType (TextChunk s e d) = ''Text''"
| "chunkType (MustacheTag s e x) = ''MustacheTag''"
| "chunkType (AttributeShorthand s e x) = ''AttributeShorthand''"

subsection \<open>The walk of a closing tag\<close>

text \<open>
  The walk of lines 113 to 120 writes the \<open>end\<close> of the nodes it pops and nothing else:
  no node loses a child and no text is trimmed.
\<close>

lemma autoClose_keeps_children_and_data:
  "autoClose name start st ns = Inr (par, below, ns') \<Longrightarrow>
     map children ns' = map children ns \<and> map data ns' = map data ns"
proof (induction name start st ns rule: autoClose.induct)
  case (1 name start ns)
  then show ?case by simp
next
  case (2 name start parent below0 ns)
  show ?case
  proof (cases "nname (ns ! parent) \<noteq> Some name")
    case True
    with "2.prems" have el: "ntype (ns ! parent) = Element"
      and rec: "autoClose name start below0 (ns[parent := (ns ! parent)\<lparr>nend := Some start\<rparr>]) = Inr (par, below, ns')"
      by (auto split: if_splits)
    have same: "children (ns[parent := (ns ! parent)\<lparr>nend := Some start\<rparr>] ! i) = children (ns ! i)
                \<and> data (ns[parent := (ns ! parent)\<lparr>nend := Some start\<rparr>] ! i) = data (ns ! i)" for i
      by (cases "i = parent"; cases "parent < length ns") (auto simp: list_update_beyond)
    then have "map children (ns[parent := (ns ! parent)\<lparr>nend := Some start\<rparr>]) = map children ns"
      "map data (ns[parent := (ns ! parent)\<lparr>nend := Some start\<rparr>]) = map data ns"
      by (simp_all add: list_eq_iff_nth_eq)
    with "2.IH"[OF True _ rec] el show ?thesis
      by simp
  next
    case False
    with "2.prems" show ?thesis by auto
  qed
qed

section \<open>Properties\<close>

subsection \<open>Running the tag state on concrete templates\<close>

text \<open>
  C7.  The template \<open><li>one<li>two\<close> parses to two \<open>li\<close> elements (nodes 1 and 3) that
  are both children of the root fragment (node 0): the second \<open><li>\<close> finds \<open>li\<close> in the
  disallowed contents of its parent \<open>li\<close>, so the first element is closed (its end is the
  offset 7 of the second tag) and popped before the second one is created.  The first
  \<open>li\<close> holds the text \<open>one\<close> only, the second holds \<open>two\<close>.
\<close>

theorem li_closes_li:
  "parse collaborators ''<li>one<li>two'' =
     Some (Inr \<lparr>template = ''<li>one<li>two'', index = 14, stack = [3, 0],
       nodes =
         [\<lparr>ntype = Fragment, nstart = 0, nend = Some 14, nname = None,
           attributes = [], children = [1, 3], data = []\<rparr>,
          \<lparr>ntype = Element, nstart = 0, nend = Some 7, nname = Some ''li'',
           attributes = [], children = [2], data = []\<rparr>,
          \<lparr>ntype = Text, nstart = 4, nend = Some 7, nname = None,
           attributes = [], children = [], data = ''one''\<rparr>,
          \<lparr>ntype = Element, nstart = 7, nend = None, nname = Some ''li'',
           attributes = [], children = [4], data = []\<rparr>,
          \<lparr>ntype = Text, nstart = 11, nend = Some 14, nname = None,
           attributes = [], children = [], data = ''two''\<rparr>],
       metaTagsSeen = [], js = None, css = None\<rparr>)"
  by code_simp

text \<open>
  C1.  In \<open><ul><li> a <li> b </ul>\<close> both \<open>li\<close> elements are closed without a closing tag
  of their own.  The first one (node 2) is closed by the second \<open><li>\<close>, on the path of
  lines 129 to 138, which strips it: its text (node 3) is \<open>a\<close>.  The second one (node 4)
  is closed by the walk of \<open></ul>\<close> (lines 113 to 120), which sets its end to the offset
  18 of the closing tag and pops it, and does not strip it: its text (node 5) is still
  \<open> b \<close>, with the blanks.  (The walk never strips: \<open>autoClose_keeps_children_and_data\<close>.)
\<close>

theorem auto_closed_element_keeps_whitespace:
  "parse collaborators ''<ul><li> a <li> b </ul>'' =
     Some (Inr \<lparr>template = ''<ul><li> a <li> b </ul>'', index = 23, stack = [0],
       nodes =
         [\<lparr>ntype = Fragment, nstart = 0, nend = Some 23, nname = None,
           attributes = [], children = [1], data = []\<rparr>,
          \<lparr>ntype = Element, nstart = 0, nend = Some 23, nname = Some ''ul'',
           attributes = [], children = [2, 4], data = []\<rparr>,
          \<lparr>ntype = Element, nstart = 4, nend = Some 11, nname = Some ''li'',
           attributes = [], children = [3], data = []\<rparr>,
          \<lparr>ntype = Text, nstart = 8, nend = Some 11, nname = None,
           attributes = [], children = [], data = ''a''\<rparr>,
          \<lparr>ntype = Element, nstart = 11, nend = Some 18, nname = Some ''li'',
           attributes = [], children = [5], data = []\<rparr>,
          \<lparr>ntype = Text, nstart = 15, nend = Some 18, nname = None,
           attributes = [], children = [], data = '' b ''\<rparr>],
       metaTagsSeen = [], js = None, css = None\<rparr>)"
  by code_simp

text \<open>
  C4.  The tag name reader accepts the token \<open>a@b\<close> of \<open><a@b>\<close>, which is not a name of
  the tag-name grammar: \<open>validTagName\<close> has no end anchor, so the test passes as soon as
  the token begins with a letter.
\<close>

theorem tag_name_with_foreign_character_accepted:
  "readTagName ((initialParser ''<a@b>'')\<lparr>index := 1\<rparr>)
     = Inr (''a@b'', (initialParser ''<a@b>'')\<lparr>index := 4\<rparr>)
   \<and> \<not> matchesTagNameGrammar ''a@b''"
  by code_simp

subsection \<open>Void elements\<close>

text \<open>
  C6.  An opening tag whose name is a void-element name, and which parses, adds exactly
  one node to the arena: an \<open>Element\<close> with that name, with its end set to the offset
  behind the tag and with no children.  The node becomes the last child of the top of
  the stack and is not pushed: the stack after the tag holds no node that was not on it
  before.  Whatever the driver reads afterwards, the node stays off the stack and is
  never changed again, so it has no children in the final tree.  The stack of \<open>p\<close>
  refers to nodes of the arena, and the name is none of the two raw-content names
  (for those no element is created at the top level).
\<close>

theorem void_element_is_a_leaf:
  assumes wf: "\<forall>i\<in>set (stack p). i < length (nodes p)"
    and opens: "\<not> match ''!--'' (p\<lparr>index := index p + 1\<rparr>)" "\<not> match ''/'' (p\<lparr>index := index p + 1\<rparr>)"
    and name: "readTagName (p\<lparr>index := index p + 1\<rparr>) = Inr (name, p1)"
    and void: "isVoidElementName env name"
    and nosp: "map_of specials name = None"
    and ok: "tag env p = Inr q"
  shows "length (nodes q) = Suc (length (nodes p))
         \<and> ntype (nodes q ! length (nodes p)) = Element
         \<and> nname (nodes q ! length (nodes p)) = Some name
         \<and> nstart (nodes q ! length (nodes p)) = index p
         \<and> nend (nodes q ! length (nodes p)) = Some (index q)
         \<and> children (nodes q ! length (nodes p)) = []
         \<and> length (nodes p) \<notin> set (stack q)
         \<and> set (stack q) \<subseteq> set (stack p)
         \<and> stack q \<noteq> []
         \<and> last (children (nodes q ! hd (stack q))) = length (nodes p)
         \<and> (\<forall>n r. parseLoop env n q = Some (Inr r)
                \<longrightarrow> length (nodes p) \<notin> set (stack r)
                    \<and> nodes r ! length (nodes p) = nodes q ! length (nodes p))"
proof -
  from ok tag_opening[OF opens name, of env] obtain p2 where
    mt: "metaTagCheck name False (index p) p1 = Inr p2"
    and ot: "openTag env name (index p) (current p) (allowWhitespace p2) = Inr q"
    by (auto split: sum.splits)
  define p3 where "p3 = allowWhitespace p2"
  have "stack p1 = stack p" "nodes p1 = nodes p"
    using only_index[OF readTagName_frame[OF name]] by simp_all
  then have "stack p2 = stack p" "nodes p2 = nodes p"
    using only_metaTagsSeen[OF metaTagCheck_frame(1)[OF mt]] by simp_all
  then have p3: "stack p3 = stack p" "nodes p3 = nodes p"
    by (simp_all add: p3_def allowWhitespace_def)
  then have cur: "current p = current p3"
    by (simp add: current_def)
  from ot have "openTag env name (index p) (current p3) p3 = Inr q"
    by (simp add: cur p3_def)
  then obtain par attrs u p4 where
    par: "current p3 = Some par"
    and ra: "readAttributes env (impliedClose name (index p) par p3) [] [] = Inr (attrs, u, p4)"
    and el: "elementTag env name (index p) attrs (allowWhitespace p4) = Inr q"
    using nosp by (elim openTag_cases) auto
  define p5 where "p5 = allowWhitespace p4"
  have ic: "set (stack (impliedClose name (index p) par p3)) \<subseteq> set (stack p3)"
    "length (nodes (impliedClose name (index p) par p3)) = length (nodes p3)"
    by (simp_all add: impliedClose_stack)
  have "stack p4 = stack (impliedClose name (index p) par p3)"
    "nodes p4 = nodes (impliedClose name (index p) par p3)"
    using only_index[OF readAttributes_frame[OF ra]] by simp_all
  with ic p3 have p5: "set (stack p5) \<subseteq> set (stack p)" "length (nodes p5) = length (nodes p)"
    by (simp_all add: p5_def allowWhitespace_def)
  with wf have wf5: "\<forall>i\<in>set (stack p5). i < length (nodes p5)"
    by auto
  from elementTag_selfClosing[OF wf5 void el[folded p5_def]]
  have q: "stack q = stack p5" "length (nodes q) = Suc (length (nodes p))"
    "nodes q ! length (nodes p) =
       \<lparr>ntype = Element, nstart = index p, nend = Some (index q), nname = Some name,
        attributes = attrs, children = [], data = []\<rparr>"
    "stack q \<noteq> []"
    "children (nodes q ! hd (stack q)) = children (nodes p5 ! hd (stack p5)) @ [length (nodes p)]"
    by (auto simp: p5)
  from q(1) wf5 p5 have off: "length (nodes p) \<notin> set (stack q)"
    by auto
  with q have cn: "closedNode (length (nodes p)) q"
    by (simp add: closedNode_def)
  have later: "\<forall>n r. parseLoop env n q = Some (Inr r)
               \<longrightarrow> length (nodes p) \<notin> set (stack r)
                   \<and> nodes r ! length (nodes p) = nodes q ! length (nodes p)"
  proof (intro allI impI)
    fix n r
    assume "parseLoop env n q = Some (Inr r)"
    from parseLoop_closedNode[OF cn this]
    show "length (nodes p) \<notin> set (stack r)
          \<and> nodes r ! length (nodes p) = nodes q ! length (nodes p)"
      by (simp add: closedNode_def)
  qed
  have "last (children (nodes q ! hd (stack q))) = length (nodes p)"
    by (simp add: q(5))
  with q(1-4) off p5(1) later show ?thesis
    by (simp del: parseLoop.simps)
qed


theorem void_element_is_a_leaf_witness:
  "tag collaborators (initialParser ''<br>'') =
     Inr \<lparr>template = ''<br>'', index = 4, stack = [0],
          nodes =
            [\<lparr>ntype = Fragment, nstart = 0, nend = Some 4, nname = None,
              attributes = [], children = [1], data = []\<rparr>,
             \<lparr>ntype = Element, nstart = 0, nend = Some 4, nname = Some ''br'',
              attributes = [], children = [], data = []\<rparr>],
          metaTagsSeen = [], js = None, css = None\<rparr>
   \<and> isVoidElementName collaborators ''br''
   \<and> length (nodes (initialParser ''<br>'')) \<notin> set [0::nat]"
proof -
  let ?p = "initialParser ''<br>''"
  let ?q = "\<lparr>template = ''<br>'', index = 4, stack = [0],
          nodes =
            [\<lparr>ntype = Fragment, nstart = 0, nend = Some 4, nname = None,
              attributes = [], children = [1], data = []\<rparr>,
             \<lparr>ntype = Element, nstart = 0, nend = Some 4, nname = Some ''br'',
              attributes = [], children = [], data = []\<rparr>],
          metaTagsSeen = [], js = None, css = None\<rparr>"
  have wf: "\<forall>i\<in>set (stack ?p). i < length (nodes ?p)"
    by (simp add: initialParser_def)
  have o1: "\<not> match ''!--'' (?p\<lparr>index := index ?p + 1\<rparr>)"
    by code_simp
  have o2: "\<not> match ''/'' (?p\<lparr>index := index ?p + 1\<rparr>)"
    by code_simp
  have nm: "readTagName (?p\<lparr>index := index ?p + 1\<rparr>) = Inr (''br'', ?p\<lparr>index := 3\<rparr>)"
    by code_simp
  have void: "isVoidElementName collaborators ''br''"
    by code_simp
  have nosp: "map_of specials ''br'' = None"
    by code_simp
  have ok: "tag collaborators ?p = Inr ?q"
    by code_simp
  from void_element_is_a_leaf[OF wf o1 o2 nm void nosp ok]
  have "length (nodes ?p) \<notin> set (stack ?q)"
    by simp
  with ok void show ?thesis
    by simp
qed

subsection \<open>The implied close of an opening tag\<close>

text \<open>
  C10.  The step of lines 129 to 138, run for an opening tag \<open>name\<close> with the top of the
  stack as \<open>parent\<close>: whether it pops is decided by the parent's own name and the
  disallowed-contents table alone; it pops the top and nothing else, or nothing at all;
  and in the arena it changes the parent (and, through \<open>stripWhitespace\<close>, \<open>Text\<close> nodes)
  only: every other node that is not a \<open>Text\<close> node, so every element, block or fragment
  further down the stack, is as it was.
\<close>

theorem implied_close_pops_at_most_one:
  assumes "current p = Some parent" and "q = impliedClose name start parent p"
  shows "stack q =
           (if (case nname (nodes p ! parent) of
                  None \<Rightarrow> False
                | Some parentName \<Rightarrow>
                    (case map_of disallowedContents parentName of
                       None \<Rightarrow> False
                     | Some names \<Rightarrow> name \<in> set names))
            then tl (stack p) else stack p)
         \<and> length (stack p) \<le> length (stack q) + 1
         \<and> length (nodes q) = length (nodes p)
         \<and> (\<forall>i. i \<noteq> parent \<and> ntype (nodes p ! i) \<noteq> Text \<longrightarrow> nodes q ! i = nodes p ! i)"
  using assms unfolding impliedClose_def current_def
  by (auto simp: Let_def stripWhitespace_length stripWhitespace_other nth_list_update
      split: option.splits list.splits)

theorem implied_close_pops_at_most_one_witness:
  "stack (impliedClose ''td'' 16 3
       \<lparr>template = ''<table><tr><td>a<td>b'', index = 19, stack = [3, 2, 1, 0],
        nodes =
          [\<lparr>ntype = Fragment, nstart = 0, nend = Some 21, nname = None,
            attributes = [], children = [1], data = []\<rparr>,
           \<lparr>ntype = Element, nstart = 0, nend = None, nname = Some ''table'',
            attributes = [], children = [2], data = []\<rparr>,
           \<lparr>ntype = Element, nstart = 7, nend = None, nname = Some ''tr'',
            attributes = [], children = [3], data = []\<rparr>,
           \<lparr>ntype = Element, nstart = 11, nend = None, nname = Some ''td'',
            attributes = [], children = [4], data = []\<rparr>,
           \<lparr>ntype = Text, nstart = 15, nend = Some 16, nname = None,
            attributes = [], children = [], data = ''a''\<rparr>],
        metaTagsSeen = [], js = None, css = None\<rparr>) = [2, 1, 0]"
proof -
  let ?p = "\<lparr>template = ''<table><tr><td>a<td>b'', index = 19, stack = [3, 2, 1, 0],
        nodes =
          [\<lparr>ntype = Fragment, nstart = 0, nend = Some 21, nname = None,
            attributes = [], children = [1], data = []\<rparr>,
           \<lparr>ntype = Element, nstart = 0, nend = None, nname = Some ''table'',
            attributes = [], children = [2], data = []\<rparr>,
           \<lparr>ntype = Element, nstart = 7, nend = None, nname = Some ''tr'',
            attributes = [], children = [3], data = []\<rparr>,
           \<lparr>ntype = Element, nstart = 11, nend = None, nname = Some ''td'',
            attributes = [], children = [4], data = []\<rparr>,
           \<lparr>ntype = Text, nstart = 15, nend = Some 16, nname = None,
            attributes = [], children = [], data = ''a''\<rparr>],
        metaTagsSeen = [], js = None, css = None\<rparr>"
  have c: "current ?p = Some 3"
    by (simp add: current_def)
  have d: "map_of disallowedContents ''td'' = Some [''td'', ''th'', ''tr'']"
    by code_simp
  from implied_close_pops_at_most_one[OF c refl, of "''td''" 16] d show ?thesis
    by simp
qed

subsection \<open>Singleton meta-tags\<close>

text \<open>
  C8.  An opening tag whose name is a meta-tag name raises a \<open>SyntaxError\<close> at the
  offset of its \<open><\<close> when the name is already registered for this parse (the second
  occurrence), and also when the name is new and the stack holds more than the root.
  An opening occurrence that parses registers its name, and no later round of the tag or
  the text state removes a registered name: so the second opening occurrence in one
  parse finds the name registered and raises.
\<close>

theorem meta_tag_twice_or_nested_raises:
  assumes nc: "\<not> match ''!--'' (p\<lparr>index := index p + 1\<rparr>)"
    and no: "\<not> match ''/'' (p\<lparr>index := index p + 1\<rparr>)"
    and rt: "readTagName (p\<lparr>index := index p + 1\<rparr>) = Inr (name, p1)"
    and meta: "jsIn name metaTags"
  shows "(jsIn name (metaTagsSeen p) \<longrightarrow>
            tag env p = Inl (SyntaxError (''A component can only have one <'' @ name @ ''> tag'') (index p)))
       \<and> (\<not> jsIn name (metaTagsSeen p) \<and> 1 < length (stack p) \<longrightarrow>
            tag env p = Inl (SyntaxError (''<'' @ name @ ''> tags cannot be inside elements or blocks'') (index p)))
       \<and> (\<forall>q. tag env p = Inr q \<longrightarrow> jsIn name (metaTagsSeen q))
       \<and> (\<forall>r r'. jsIn name (metaTagsSeen r) \<and> (tag env r = Inr r' \<or> textState env r = Inr r')
              \<longrightarrow> jsIn name (metaTagsSeen r'))"
proof -
  have p1: "metaTagsSeen p1 = metaTagsSeen p" "stack p1 = stack p"
    using only_index[OF readTagName_frame[OF rt]] by simp_all
  have a: "jsIn name (metaTagsSeen p) \<longrightarrow>
            tag env p = Inl (SyntaxError (''A component can only have one <'' @ name @ ''> tag'') (index p))"
    unfolding tag_opening[OF nc no rt] metaTagCheck_def using meta p1 by simp
  have b: "\<not> jsIn name (metaTagsSeen p) \<and> 1 < length (stack p) \<longrightarrow>
            tag env p = Inl (SyntaxError (''<'' @ name @ ''> tags cannot be inside elements or blocks'') (index p))"
    unfolding tag_opening[OF nc no rt] metaTagCheck_def using meta p1 by (simp add: Let_def)
  have c: "\<forall>q. tag env p = Inr q \<longrightarrow> jsIn name (metaTagsSeen q)"
    using opening_registers[OF nc no rt meta] by blast
  have d: "\<forall>r r'. jsIn name (metaTagsSeen r) \<and> (tag env r = Inr r' \<or> textState env r = Inr r')
              \<longrightarrow> jsIn name (metaTagsSeen r')"
    using step_keeps_registration by blast
  from a b c d show ?thesis by blast
qed


theorem meta_tag_twice_or_nested_raises_witness:
  "tag collaborators (initialParser ''<:Window/><:Window/>'') =
     Inr \<lparr>template = ''<:Window/><:Window/>'', index = 10, stack = [0],
          nodes =
            [\<lparr>ntype = Fragment, nstart = 0, nend = Some 20, nname = None,
              attributes = [], children = [1], data = []\<rparr>,
             \<lparr>ntype = Element, nstart = 0, nend = Some 10, nname = Some '':Window'',
              attributes = [], children = [], data = []\<rparr>],
          metaTagsSeen = ['':Window''], js = None, css = None\<rparr>
   \<and> tag collaborators
       \<lparr>template = ''<:Window/><:Window/>'', index = 10, stack = [0],
          nodes =
            [\<lparr>ntype = Fragment, nstart = 0, nend = Some 20, nname = None,
              attributes = [], children = [1], data = []\<rparr>,
             \<lparr>ntype = Element, nstart = 0, nend = Some 10, nname = Some '':Window'',
              attributes = [], children = [], data = []\<rparr>],
          metaTagsSeen = ['':Window''], js = None, css = None\<rparr>
     = Inl (SyntaxError ''A component can only have one <:Window> tag'' 10)
   \<and> tag collaborators
       \<lparr>template = ''<div><:Window/>'', index = 5, stack = [1, 0],
          nodes =
            [\<lparr>ntype = Fragment, nstart = 0, nend = Some 15, nname = None,
              attributes = [], children = [1], data = []\<rparr>,
             \<lparr>ntype = Element, nstart = 0, nend = None, nname = Some ''div'',
              attributes = [], children = [], data = []\<rparr>],
          metaTagsSeen = [], js = None, css = None\<rparr>
     = Inl (SyntaxError ''<:Window> tags cannot be inside elements or blocks'' 5)"
proof -
  let ?w = "\<lparr>template = ''<:Window/><:Window/>'', index = 10, stack = [0],
       nodes =
         [\<lparr>ntype = Fragment, nstart = 0, nend = Some 20, nname = None,
           attributes = [], children = [1], data = []\<rparr>,
          \<lparr>ntype = Element, nstart = 0, nend = Some 10, nname = Some '':Window'',
           attributes = [], children = [], data = []\<rparr>],
       metaTagsSeen = ['':Window''], js = None, css = None\<rparr>"
  let ?n = "\<lparr>template = ''<div><:Window/>'', index = 5, stack = [1, 0],
       nodes =
         [\<lparr>ntype = Fragment, nstart = 0, nend = Some 15, nname = None,
           attributes = [], children = [1], data = []\<rparr>,
          \<lparr>ntype = Element, nstart = 0, nend = None, nname = Some ''div'',
           attributes = [], children = [], data = []\<rparr>],
       metaTagsSeen = [], js = None, css = None\<rparr>"
  have meta: "jsIn '':Window'' metaTags"
    by code_simp
  have first: "tag collaborators (initialParser ''<:Window/><:Window/>'') = Inr ?w"
    by code_simp
  have w: "\<not> match ''!--'' (?w\<lparr>index := index ?w + 1\<rparr>)" "\<not> match ''/'' (?w\<lparr>index := index ?w + 1\<rparr>)"
    "readTagName (?w\<lparr>index := index ?w + 1\<rparr>) = Inr ('':Window'', ?w\<lparr>index := 18\<rparr>)"
    "jsIn '':Window'' (metaTagsSeen ?w)"
    by code_simp+
  have n: "\<not> match ''!--'' (?n\<lparr>index := index ?n + 1\<rparr>)" "\<not> match ''/'' (?n\<lparr>index := index ?n + 1\<rparr>)"
    "readTagName (?n\<lparr>index := index ?n + 1\<rparr>) = Inr ('':Window'', ?n\<lparr>index := 13\<rparr>)"
    "\<not> jsIn '':Window'' (metaTagsSeen ?n)" "1 < length (stack ?n)"
    by code_simp+
  from meta_tag_twice_or_nested_raises[OF w(1,2,3) meta, of collaborators] w(4)
  have twice: "tag collaborators ?w = Inl (SyntaxError ''A component can only have one <:Window> tag'' 10)"
    by simp
  from meta_tag_twice_or_nested_raises[OF n(1,2,3) meta, of collaborators] n(4,5)
  have nested: "tag collaborators ?n = Inl (SyntaxError ''<:Window> tags cannot be inside elements or blocks'' 5)"
    by simp
  from first twice nested show ?thesis
    by simp
qed

text \<open>
  C9.  A closing tag whose name is a meta-tag name that is already registered always
  raises a \<open>SyntaxError\<close>: the registration check of lines 88 to 94 comes before
  anything that is particular to closing tags.  The error is \<open>cannot have children\<close>, at
  the first child of the top of the stack, when that node has children, and \<open>can only
  have one\<close>, at the offset of the tag, when it has none.  An opening occurrence that
  parses registers the name and no later round removes it, so the closing tag of a
  pair \<open><:Window>\<close> ... \<open></:Window>\<close> always finds the name registered: the pair never
  parses.  The stack is not empty (it holds the root at least).
\<close>

theorem closing_meta_tag_raises:
  assumes nc: "\<not> match ''!--'' (p\<lparr>index := index p + 1\<rparr>)"
    and cl: "match ''/'' (p\<lparr>index := index p + 1\<rparr>)"
    and rt: "readTagName (p\<lparr>index := index p + 2\<rparr>) = Inr (name, p1)"
    and meta: "jsIn name metaTags"
    and seen: "jsIn name (metaTagsSeen p)"
    and root: "stack p \<noteq> []"
  shows "tag env p =
           (if children (nodes p ! hd (stack p)) \<noteq> []
            then Inl (SyntaxError (''<'' @ name @ ''> cannot have children'')
                        (nstart (nodes p ! hd (children (nodes p ! hd (stack p))))))
            else Inl (SyntaxError (''A component can only have one <'' @ name @ ''> tag'') (index p)))
       \<and> (\<forall>a n a'. \<not> match ''!--'' (a\<lparr>index := index a + 1\<rparr>) \<and> \<not> match ''/'' (a\<lparr>index := index a + 1\<rparr>)
                \<and> readTagName (a\<lparr>index := index a + 1\<rparr>) = Inr (name, n) \<and> tag env a = Inr a'
              \<longrightarrow> jsIn name (metaTagsSeen a'))
       \<and> (\<forall>r r'. jsIn name (metaTagsSeen r) \<and> (tag env r = Inr r' \<or> textState env r = Inr r')
              \<longrightarrow> jsIn name (metaTagsSeen r'))"
proof -
  have p1: "metaTagsSeen p1 = metaTagsSeen p" "stack p1 = stack p" "nodes p1 = nodes p"
    using only_index[OF readTagName_frame[OF rt]] by simp_all
  from root p1 have cur: "current p1 = Some (hd (stack p))"
    by (cases "stack p") (auto simp: current_def)
  have e: "tag env p =
           (if children (nodes p ! hd (stack p)) \<noteq> []
            then Inl (SyntaxError (''<'' @ name @ ''> cannot have children'')
                        (nstart (nodes p ! hd (children (nodes p ! hd (stack p))))))
            else Inl (SyntaxError (''A component can only have one <'' @ name @ ''> tag'') (index p)))"
    unfolding tag_closing[OF nc cl rt] metaTagCheck_def using meta seen p1 cur by simp
  have c: "\<forall>a n a'. \<not> match ''!--'' (a\<lparr>index := index a + 1\<rparr>) \<and> \<not> match ''/'' (a\<lparr>index := index a + 1\<rparr>)
                \<and> readTagName (a\<lparr>index := index a + 1\<rparr>) = Inr (name, n) \<and> tag env a = Inr a'
              \<longrightarrow> jsIn name (metaTagsSeen a')"
    using opening_registers[OF _ _ _ meta] by blast
  have d: "\<forall>r r'. jsIn name (metaTagsSeen r) \<and> (tag env r = Inr r' \<or> textState env r = Inr r')
              \<longrightarrow> jsIn name (metaTagsSeen r')"
    using step_keeps_registration by blast
  from e c d show ?thesis by blast
qed


theorem closing_meta_tag_raises_witness:
  "tag collaborators (initialParser ''<:Window></:Window>'') =
     Inr \<lparr>template = ''<:Window></:Window>'', index = 9, stack = [1, 0],
          nodes =
            [\<lparr>ntype = Fragment, nstart = 0, nend = Some 19, nname = None,
              attributes = [], children = [1], data = []\<rparr>,
             \<lparr>ntype = Element, nstart = 0, nend = None, nname = Some '':Window'',
              attributes = [], children = [], data = []\<rparr>],
          metaTagsSeen = ['':Window''], js = None, css = None\<rparr>
   \<and> tag collaborators
       \<lparr>template = ''<:Window></:Window>'', index = 9, stack = [1, 0],
          nodes =
            [\<lparr>ntype = Fragment, nstart = 0, nend = Some 19, nname = None,
              attributes = [], children = [1], data = []\<rparr>,
             \<lparr>ntype = Element, nstart = 0, nend = None, nname = Some '':Window'',
              attributes = [], children = [], data = []\<rparr>],
          metaTagsSeen = ['':Window''], js = None, css = None\<rparr>
     = Inl (SyntaxError ''A component can only have one <:Window> tag'' 9)"
proof -
  let ?w = "\<lparr>template = ''<:Window></:Window>'', index = 9, stack = [1, 0],
       nodes =
         [\<lparr>ntype = Fragment, nstart = 0, nend = Some 19, nname = None,
           attributes = [], children = [1], data = []\<rparr>,
          \<lparr>ntype = Element, nstart = 0, nend = None, nname = Some '':Window'',
           attributes = [], children = [], data = []\<rparr>],
       metaTagsSeen = ['':Window''], js = None, css = None\<rparr>"
  have meta: "jsIn '':Window'' metaTags"
    by code_simp
  have first: "tag collaborators (initialParser ''<:Window></:Window>'') = Inr ?w"
    by code_simp
  have w: "\<not> match ''!--'' (?w\<lparr>index := index ?w + 1\<rparr>)" "match ''/'' (?w\<lparr>index := index ?w + 1\<rparr>)"
    "readTagName (?w\<lparr>index := index ?w + 2\<rparr>) = Inr ('':Window'', ?w\<lparr>index := 18\<rparr>)"
    "jsIn '':Window'' (metaTagsSeen ?w)" "stack ?w \<noteq> []"
    by code_simp+
  from closing_meta_tag_raises[OF w(1,2,3) meta w(4,5), of collaborators]
  have "tag collaborators ?w = Inl (SyntaxError ''A component can only have one <:Window> tag'' 9)"
    by simp
  with first show ?thesis
    by simp
qed

subsection \<open>Top-level raw-content blocks\<close>

text \<open>
  C3, as the code has it.  An opening tag \<open><script>\<close> or \<open><style>\<close> at the top level
  (the stack holds one node), met when the slot of its kind is already filled, and
  whose attributes parse, raises the \<open>SyntaxError\<close> \<open>You can only have one top-level
  ... tag per component\<close>.  The offset the error carries is the offset of the \<open><\<close> of this
  tag, the second occurrence: line 156 sets the index back to \<open>start\<close> and the error is
  raised at the index.
\<close>

theorem second_special_block_raises_at_its_own_offset:
  assumes nc: "\<not> match ''!--'' (p\<lparr>index := index p + 1\<rparr>)"
    and no: "\<not> match ''/'' (p\<lparr>index := index p + 1\<rparr>)"
    and rt: "readTagName (p\<lparr>index := index p + 1\<rparr>) = Inr (name, p1)"
    and sp: "map_of specials name = Some sp"
    and filled: "slot sp p \<noteq> None"
    and top: "length (stack p) = 1"
    and ra: "readAttributes env (allowWhitespace p1) [] [] = Inr (attrs, u, p2)"
  shows "tag env p =
           Inl (SyntaxError (''You can only have one top-level <'' @ name @ ''> tag per component'') (index p))"
proof -
  from specials_names[OF sp] have nm: "name = ''script'' \<or> name = ''style''" .
  have p1: "stack p1 = stack p" "js p1 = js p" "css p1 = css p"
    using only_index[OF readTagName_frame[OF rt]] by simp_all
  from top obtain par where par: "current p = Some par"
    by (cases "stack p") (auto simp: current_def)
  have mt: "metaTagCheck name False (index p) p1 = Inr p1"
    unfolding metaTagCheck_def using special_not_meta[OF nm] by simp
  have p2: "stack p2 = stack p" "js p2 = js p" "css p2 = css p"
    using only_index[OF readAttributes_frame[OF ra]] p1 by (simp_all add: allowWhitespace_def)
  then have s2: "length (stack (allowWhitespace p2)) = 1" "slot sp (allowWhitespace p2) \<noteq> None"
    using top filled by (auto simp: allowWhitespace_def slot_def split: special.splits)
  have "tag env p = openTag env name (index p) (Some par) (allowWhitespace p1)"
    by (simp add: tag_opening[OF nc no rt] mt par)
  also have "\<dots> = specialTag sp env name (index p) attrs (allowWhitespace p2)"
    unfolding openTag_def by (simp add: impliedClose_special[OF nm] ra Let_def s2 sp)
  also have "\<dots> = Inl (SyntaxError (''You can only have one top-level <'' @ name @ ''> tag per component'') (index p))"
    unfolding specialTag_def using s2 by simp
  finally show ?thesis .
qed


text \<open>
  C3, as the specification states it, does not hold.  In \<open><script>a</script><script>b</script>\<close> the first
  block starts at offset 0 and is stored in the \<open>js\<close> slot; the second block starts at
  offset 18.  The error carries 18, not 0.
\<close>

theorem second_script_error_carries_second_offset:
  "tag collaborators (initialParser ''<script>a</script><script>b</script>'') =
     Inr \<lparr>template = ''<script>a</script><script>b</script>'', index = 18, stack = [0],
          nodes =
            [\<lparr>ntype = Fragment, nstart = 0, nend = Some 36, nname = None,
              attributes = [], children = [], data = []\<rparr>],
          metaTagsSeen = [],
          js = Some \<lparr>c_start = 0, c_end = 18, c_attributes = [], c_source = ''a''\<rparr>,
          css = None\<rparr>
   \<and> map_option c_start (js \<lparr>template = ''<script>a</script><script>b</script>'', index = 18, stack = [0],
            nodes =
              [\<lparr>ntype = Fragment, nstart = 0, nend = Some 36, nname = None,
                attributes = [], children = [], data = []\<rparr>],
            metaTagsSeen = [],
            js = Some \<lparr>c_start = 0, c_end = 18, c_attributes = [], c_source = ''a''\<rparr>,
            css = None\<rparr>) = Some 0
   \<and> tag collaborators
       \<lparr>template = ''<script>a</script><script>b</script>'', index = 18, stack = [0],
          nodes =
            [\<lparr>ntype = Fragment, nstart = 0, nend = Some 36, nname = None,
              attributes = [], children = [], data = []\<rparr>],
          metaTagsSeen = [],
          js = Some \<lparr>c_start = 0, c_end = 18, c_attributes = [], c_source = ''a''\<rparr>,
          css = None\<rparr>
     = Inl (SyntaxError ''You can only have one top-level <script> tag per component'' 18)
   \<and> tag collaborators
       \<lparr>template = ''<script>a</script><script>b</script>'', index = 18, stack = [0],
          nodes =
            [\<lparr>ntype = Fragment, nstart = 0, nend = Some 36, nname = None,
              attributes = [], children = [], data = []\<rparr>],
          metaTagsSeen = [],
          js = Some \<lparr>c_start = 0, c_end = 18, c_attributes = [], c_source = ''a''\<rparr>,
          css = None\<rparr>
     \<noteq> Inl (SyntaxError ''You can only have one top-level <script> tag per component'' 0)"
  by code_simp

theorem second_special_block_raises_at_its_own_offset_witness:
  "tag collaborators
       \<lparr>template = ''<script>a</script><script>b</script>'', index = 18, stack = [0],
          nodes =
            [\<lparr>ntype = Fragment, nstart = 0, nend = Some 36, nname = None,
              attributes = [], children = [], data = []\<rparr>],
          metaTagsSeen = [],
          js = Some \<lparr>c_start = 0, c_end = 18, c_attributes = [], c_source = ''a''\<rparr>,
          css = None\<rparr>
     = Inl (SyntaxError ''You can only have one top-level <script> tag per component'' 18)"
proof -
  let ?s = "\<lparr>template = ''<script>a</script><script>b</script>'', index = 18, stack = [0],
       nodes =
         [\<lparr>ntype = Fragment, nstart = 0, nend = Some 36, nname = None,
           attributes = [], children = [], data = []\<rparr>],
       metaTagsSeen = [],
       js = Some \<lparr>c_start = 0, c_end = 18, c_attributes = [], c_source = ''a''\<rparr>,
       css = None\<rparr>"
  have h: "\<not> match ''!--'' (?s\<lparr>index := index ?s + 1\<rparr>)" "\<not> match ''/'' (?s\<lparr>index := index ?s + 1\<rparr>)"
    "readTagName (?s\<lparr>index := index ?s + 1\<rparr>) = Inr (''script'', ?s\<lparr>index := 25\<rparr>)"
    "map_of specials ''script'' = Some Script" "slot Script ?s \<noteq> None" "length (stack ?s) = 1"
    "readAttributes collaborators (allowWhitespace (?s\<lparr>index := 25\<rparr>)) [] [] = Inr ([], [], ?s\<lparr>index := 25\<rparr>)"
    by code_simp+
  from second_special_block_raises_at_its_own_offset[OF h] show ?thesis
    by simp
qed

subsection \<open>Attribute names\<close>

text \<open>
  What the check of lines 230 to 234 compares is the attribute token as it is written,
  before the shorthand colon or the \<open>ref:\<close> prefix is taken off: the tokens the
  attribute loop has read are pairwise distinct, there is one per attribute, and a token
  that is equal to one already read for this tag raises \<open>Attributes need to be unique\<close>
  at its offset.  The name of an attribute that is not a directive is its token without
  \<open>ref:\<close> or without the shorthand colon.
\<close>

lemma attribute_tokens_are_unique:
  "(readAttributes env p [] [] = Inr (attrs, tokens, q) \<longrightarrow>
      distinct tokens \<and> length attrs = length tokens
      \<and> (\<forall>i<length tokens. \<not> directiveToken (tokens ! i)
            \<longrightarrow> attributeName (attrs ! i) = writtenName (tokens ! i)))
   \<and> (readUntil attributeNameEnd p = Inr (token, p1) \<and> token \<noteq> [] \<and> token \<in> set seen \<longrightarrow>
        readAttribute env p seen = Inl (SyntaxError ''Attributes need to be unique'' (index p)))"
proof (intro conjI impI)
  assume "readAttributes env p [] [] = Inr (attrs, tokens, q)"
  from readAttributes_tokens[OF this]
  have d: "distinct tokens"
    and l: "list_all2 (\<lambda>token a. \<not> directiveToken token \<longrightarrow> attributeName a = writtenName token) tokens attrs"
    by auto
  from d show "distinct tokens" .
  from l show "length attrs = length tokens"
    by (simp add: list_all2_lengthD)
  from l show "\<forall>i<length tokens. \<not> directiveToken (tokens ! i)
            \<longrightarrow> attributeName (attrs ! i) = writtenName (tokens ! i)"
    by (simp add: list_all2_conv_all_nth)
next
  assume "readUntil attributeNameEnd p = Inr (token, p1) \<and> token \<noteq> [] \<and> token \<in> set seen"
  then show "readAttribute env p seen = Inl (SyntaxError ''Attributes need to be unique'' (index p))"
    unfolding readAttribute_def by (simp add: Let_def)
qed


lemma attribute_tokens_are_unique_example:
  "readAttributes collaborators ((initialParser ''<div foo :foo>'')\<lparr>index := 5\<rparr>) [] [] =
     Inr ([Attribute 5 9 ''foo'' VTrue,
           Attribute 9 13 ''foo'' (Chunks [AttributeShorthand 10 13 (Identifier 10 13 ''foo'')])],
          [''foo'', '':foo''], (initialParser ''<div foo :foo>'')\<lparr>index := 13\<rparr>)
   \<and> distinct [''foo'', '':foo'']
   \<and> readAttribute collaborators ((initialParser ''<div a a>'')\<lparr>index := 7\<rparr>) [''a'']
       = Inl (SyntaxError ''Attributes need to be unique'' 7)"
proof -
  let ?p = "(initialParser ''<div foo :foo>'')\<lparr>index := 5\<rparr>"
  let ?d = "(initialParser ''<div a a>'')\<lparr>index := 7\<rparr>"
  have ra: "readAttributes collaborators ?p [] [] =
     Inr ([Attribute 5 9 ''foo'' VTrue,
           Attribute 9 13 ''foo'' (Chunks [AttributeShorthand 10 13 (Identifier 10 13 ''foo'')])],
          [''foo'', '':foo''], (initialParser ''<div foo :foo>'')\<lparr>index := 13\<rparr>)"
    by code_simp
  have ru: "readUntil attributeNameEnd ?d = Inr (''a'', ?d\<lparr>index := 8\<rparr>)"
    by code_simp
  have i: "index ?d = 7"
    by simp
  from attribute_tokens_are_unique[of collaborators ?p] ra
  have "distinct [''foo'', '':foo'']"
    by blast
  moreover
  from attribute_tokens_are_unique[of collaborators ?d _ _ _ "''a''" "?d\<lparr>index := 8\<rparr>" "[''a'']"] ru
  have "readAttribute collaborators ?d [''a''] = Inl (SyntaxError ''Attributes need to be unique'' (index ?d))"
    by simp
  ultimately show ?thesis
    using ra i by simp
qed

text \<open>
  C5.  The names of the attributes of one tag are meant to be pairwise distinct, and
  the long form shows it: \<open><div foo foo="{{foo}}">\<close> raises \<open>Attributes need to be
  unique\<close> at the offset 9 of the second attribute.  The shorthand, which line 258 calls
  the same thing, slips through: the check of lines 230 to 234 sees the token \<open>:foo\<close>
  before line 260 turns it into the name \<open>foo\<close>, so \<open><div foo :foo>\<close> parses, and
  both attributes of the element are named \<open>foo\<close>.
\<close>

theorem shorthand_repeats_attribute_name:
  "tag collaborators (initialParser ''<div foo :foo>'') =
     Inr \<lparr>template = ''<div foo :foo>'', index = 14, stack = [1, 0],
          nodes =
            [\<lparr>ntype = Fragment, nstart = 0, nend = Some 14, nname = None,
              attributes = [], children = [1], data = []\<rparr>,
             \<lparr>ntype = Element, nstart = 0, nend = None, nname = Some ''div'',
              attributes =
                [Attribute 5 9 ''foo'' VTrue,
                 Attribute 9 13 ''foo'' (Chunks [AttributeShorthand 10 13 (Identifier 10 13 ''foo'')])],
              children = [], data = []\<rparr>],
          metaTagsSeen = [], js = None, css = None\<rparr>
   \<and> \<not> distinct (map attributeName
         [Attribute 5 9 ''foo'' VTrue,
          Attribute 9 13 ''foo'' (Chunks [AttributeShorthand 10 13 (Identifier 10 13 ''foo'')])])
   \<and> tag collaborators (initialParser (''<div foo foo='' @ [CHR 0x22] @ ''{{foo}}'' @ [CHR 0x22] @ ''>''))
       = Inl (SyntaxError ''Attributes need to be unique'' 9)"
  by code_simp

subsection \<open>The attribute shorthand\<close>

text \<open>
  C2, as the code has it.  An attribute token \<open>:w\<close>, with \<open>w\<close> a non-empty word, gives an
  attribute named \<open>w\<close> whose value is one chunk of type \<open>AttributeShorthand\<close> that wraps
  the identifier \<open>w\<close>; chunk and identifier span the word behind the colon.  A plain
  attribute \<open>name="{{...}}"\<close> whose value is one expression gives an attribute of that
  name whose value is one chunk of type \<open>MustacheTag\<close> that spans the braces and wraps
  whatever the expression reader has read.  For \<open>:foo\<close> and \<open>foo="{{foo}}"\<close> the two
  results agree in the name and in having one chunk with the identifier \<open>foo\<close>; the
  chunks are of different types.
\<close>

theorem shorthand_and_mustache_attribute:
  "(readUntil attributeNameEnd p = Inr (CHR '':'' # w, p1) \<and> w \<noteq> [] \<and> list_all wordChar w
      \<and> CHR '':'' # w \<notin> set seen
    \<longrightarrow> readAttribute env p seen =
          Inr (Some (Attribute (index p) (index (allowWhitespace p1)) w
                       (Chunks [AttributeShorthand (index p + 1) (index p + 1 + length w)
                                  (Identifier (index p + 1) (index p + 1 + length w) w)])),
               seen @ [CHR '':'' # w], allowWhitespace p1))
   \<and> (readUntil attributeNameEnd p = Inr (name, p1) \<and> name \<noteq> [] \<and> name \<notin> set seen
      \<and> \<not> directiveToken name \<and> take 4 name \<noteq> ''ref:'' \<and> \<not> isShorthand name
      \<and> q = allowWhitespace p1
      \<and> match (''='' @ [CHR 0x22] @ ''{{'') q
      \<and> readExpression env (q\<lparr>index := index q + 4\<rparr>) = Inr (e, k)
      \<and> r = allowWhitespace (q\<lparr>index := index q + 4 + k\<rparr>)
      \<and> match (''}}'' @ [CHR 0x22]) r
    \<longrightarrow> readAttribute env p seen =
          Inr (Some (Attribute (index p) (index r + 3) name
                       (Chunks [MustacheTag (index q + 2) (index r + 2) e])),
               seen @ [name], r\<lparr>index := index r + 3\<rparr>))"
  using shorthand_attribute[of p w p1 seen env] mustache_attribute[of p name p1 seen q env e k r]
  by blast


text \<open>
  C2, as the specification states it, does not hold.  In \<open><a :foo>\<close> the value of the attribute is an
  \<open>AttributeShorthand\<close> chunk, in \<open><a foo="{{foo}}">\<close> it is a \<open>MustacheTag\<close> chunk.
\<close>

theorem shorthand_chunk_is_not_a_mustache_tag:
  "readAttribute collaborators ((initialParser ''<a :foo>'')\<lparr>index := 3\<rparr>) [] =
     Inr (Some (Attribute 3 7 ''foo'' (Chunks [AttributeShorthand 4 7 (Identifier 4 7 ''foo'')])),
          ['':foo''], (initialParser ''<a :foo>'')\<lparr>index := 7\<rparr>)
   \<and> readAttribute collaborators ((initialParser (''<a foo='' @ [CHR 0x22] @ ''{{foo}}'' @ [CHR 0x22] @ ''>''))\<lparr>index := 3\<rparr>) [] =
     Inr (Some (Attribute 3 16 ''foo'' (Chunks [MustacheTag 8 15 (Identifier 10 13 ''foo'')])),
          [''foo''], (initialParser (''<a foo='' @ [CHR 0x22] @ ''{{foo}}'' @ [CHR 0x22] @ ''>''))\<lparr>index := 16\<rparr>)
   \<and> map chunkType [AttributeShorthand 4 7 (Identifier 4 7 ''foo'')]
       \<noteq> map chunkType [MustacheTag 8 15 (Identifier 10 13 ''foo'')]"
  by code_simp

theorem shorthand_and_mustache_attribute_witness:
  "readAttribute collaborators ((initialParser ''<a :foo>'')\<lparr>index := 3\<rparr>) [] =
     Inr (Some (Attribute 3 7 ''foo'' (Chunks [AttributeShorthand 4 7 (Identifier 4 7 ''foo'')])),
          ['':foo''], (initialParser ''<a :foo>'')\<lparr>index := 7\<rparr>)
   \<and> readAttribute collaborators ((initialParser (''<a foo='' @ [CHR 0x22] @ ''{{foo}}'' @ [CHR 0x22] @ ''>''))\<lparr>index := 3\<rparr>) [] =
     Inr (Some (Attribute 3 16 ''foo'' (Chunks [MustacheTag 8 15 (Identifier 10 13 ''foo'')])),
          [''foo''], (initialParser (''<a foo='' @ [CHR 0x22] @ ''{{foo}}'' @ [CHR 0x22] @ ''>''))\<lparr>index := 16\<rparr>)"
proof -
  let ?a = "initialParser ''<a :foo>''"
  let ?b = "initialParser (''<a foo='' @ [CHR 0x22] @ ''{{foo}}'' @ [CHR 0x22] @ ''>'')"
  have a: "readUntil attributeNameEnd (?a\<lparr>index := 3\<rparr>) = Inr (CHR '':'' # ''foo'', ?a\<lparr>index := 7\<rparr>)"
    "''foo'' \<noteq> []" "list_all wordChar ''foo''" "CHR '':'' # ''foo'' \<notin> set []"
    "allowWhitespace (?a\<lparr>index := 7\<rparr>) = ?a\<lparr>index := 7\<rparr>"
    by code_simp+
  have b: "readUntil attributeNameEnd (?b\<lparr>index := 3\<rparr>) = Inr (''foo'', ?b\<lparr>index := 6\<rparr>)"
    "''foo'' \<noteq> []" "''foo'' \<notin> set []"
    "\<not> directiveToken ''foo''" "take 4 ''foo'' \<noteq> ''ref:''" "\<not> isShorthand ''foo''"
    "?b\<lparr>index := 6\<rparr> = allowWhitespace (?b\<lparr>index := 6\<rparr>)"
    "match (''='' @ [CHR 0x22] @ ''{{'') (?b\<lparr>index := 6\<rparr>)"
    "readExpression collaborators ((?b\<lparr>index := 6\<rparr>)\<lparr>index := index (?b\<lparr>index := 6\<rparr>) + 4\<rparr>)
       = Inr (Identifier 10 13 ''foo'', 3)"
    "?b\<lparr>index := 13\<rparr> = allowWhitespace ((?b\<lparr>index := 6\<rparr>)\<lparr>index := index (?b\<lparr>index := 6\<rparr>) + 4 + 3\<rparr>)"
    "match (''}}'' @ [CHR 0x22]) (?b\<lparr>index := 13\<rparr>)"
    by code_simp+
  from shorthand_and_mustache_attribute[of "?a\<lparr>index := 3\<rparr>" "''foo''" "?a\<lparr>index := 7\<rparr>" "[]"
      collaborators] a
  have "readAttribute collaborators (?a\<lparr>index := 3\<rparr>) [] =
     Inr (Some (Attribute 3 7 ''foo'' (Chunks [AttributeShorthand 4 7 (Identifier 4 7 ''foo'')])),
          ['':foo''], ?a\<lparr>index := 7\<rparr>)"
    by simp
  moreover
  from shorthand_and_mustache_attribute[of "?b\<lparr>index := 3\<rparr>" _ "?b\<lparr>index := 6\<rparr>" "[]"
      collaborators "''foo''" "?b\<lparr>index := 6\<rparr>" "Identifier 10 13 ''foo''" 3 "?b\<lparr>index := 13\<rparr>"] b
  have "readAttribute collaborators (?b\<lparr>index := 3\<rparr>) [] =
     Inr (Some (Attribute 3 16 ''foo'' (Chunks [MustacheTag 8 15 (Identifier 10 13 ''foo'')])),
          [''foo''], ?b\<lparr>index := 16\<rparr>)"
    by simp
  ultimately show ?thesis
    by simp
qed

end
